theory Spec2Isabelle
  imports Main
begin

section \<open>Transport and exceptions\<close>

text \<open>
  The exceptions the calls of the source can raise, all of them subclasses of Python's
  \<open>Exception\<close>. A WebSocket call raises \<open>WebSocketDisconnect\<close> or something else;
  \<open>websocket_endpoint\<close> tells the two apart, \<open>broadcast\<close> does not. A statement sent
  to SQLite raises \<open>OverflowError\<close> when an integer bound to it is outside the signed
  64-bit range, \<open>UnicodeEncodeError\<close> when a text bound to it cannot be encoded as UTF-8,
  and \<open>OperationalError\<close> when the table has no key left.
\<close>

datatype exc =
    WebSocketDisconnect
  | OverflowError
  | UnicodeEncodeError
  | OperationalError
  | OtherException

text \<open>
  The network is outside the program. A transport says, for each socket, whether a call on
  it returns (\<open>None\<close>) or raises (\<open>Some e\<close>). One transport is consulted for
  \<open>accept\<close>, one for \<open>send_json\<close>.
\<close>

type_synonym 'ws transport = "'ws \<Rightarrow> exc option"

definition accept :: "'ws transport \<Rightarrow> 'ws \<Rightarrow> exc + unit" where
  "accept acc ws = (case acc ws of Some e \<Rightarrow> Inl e | None \<Rightarrow> Inr ())"

definition send_json :: "'ws transport \<Rightarrow> 'ws \<Rightarrow> 'msg \<Rightarrow> exc + unit" where
  "send_json tr ws msg = (case tr ws of Some e \<Rightarrow> Inl e | None \<Rightarrow> Inr ())"

text \<open>
  What a call does to the outside and to the registry's set, in the order it happens:
  a completed handshake, an insertion into and a removal from \<open>_connections\<close>, and one
  delivery attempt of a message with its outcome.
\<close>

datatype ('ws, 'msg) effect =
    Accepted 'ws
  | Added 'ws
  | Discarded 'ws
  | Attempt 'ws 'msg "exc option"

section \<open>websocket_manager.py: ConnectionManager\<close>

text \<open>
  \<open>_connections\<close> is a Python set. It is kept as a list without repetitions:
  \<open>set_add\<close> is \<open>set.add\<close>, \<open>set_discard\<close> is \<open>set.discard\<close>, and the order of the
  list is the order in which \<open>list(self._connections)\<close> enumerates it. Python leaves that
  order open; the theorems below hold for every repetition-free list, hence for every order.

  \<open>_lock\<close> is never held across an \<open>await\<close>: each \<open>async with self._lock\<close> block runs
  to its end without suspending, so each block is one atomic step and the lock itself needs
  no state.
\<close>

record 'ws connection_manager =
  connections :: "'ws list"

definition set_add :: "'a \<Rightarrow> 'a list \<Rightarrow> 'a list" where
  "set_add x xs = (if x \<in> set xs then xs else xs @ [x])"

definition set_discard :: "'a \<Rightarrow> 'a list \<Rightarrow> 'a list" where
  "set_discard x xs = removeAll x xs"

definition init_manager :: "'ws connection_manager" where
  "init_manager = \<lparr>connections = []\<rparr>"

text \<open>
  \<open>connect\<close>: \<open>await websocket.accept()\<close>, then the insertion under the lock. An exception
  of \<open>accept\<close> leaves the function before the set is touched.
\<close>

definition connect ::
  "'ws transport \<Rightarrow> 'ws \<Rightarrow> 'ws connection_manager
     \<Rightarrow> (exc + unit) \<times> 'ws connection_manager \<times> ('ws, 'msg) effect list" where
  "connect acc ws m =
     (case accept acc ws of
        Inl e \<Rightarrow> (Inl e, m, [])
      | Inr _ \<Rightarrow> (Inr (), m\<lparr>connections := set_add ws (connections m)\<rparr>,
                  [Accepted ws, Added ws]))"

definition disconnect ::
  "'ws \<Rightarrow> 'ws connection_manager
     \<Rightarrow> (exc + unit) \<times> 'ws connection_manager \<times> ('ws, 'msg) effect list" where
  "disconnect ws m =
     (Inr (), m\<lparr>connections := set_discard ws (connections m)\<rparr>, [Discarded ws])"

text \<open>
  While \<open>broadcast\<close> is suspended in \<open>await connection.send_json(message)\<close>, other
  coroutines run. What they can do to the registry is an insertion (the critical section of
  another \<open>connect\<close>) or a removal (that of a \<open>disconnect\<close>, or of the cleanup of another
  \<open>broadcast\<close>). A schedule gives, for each send of the delivery loop in turn, the steps
  of the others that run while that send is awaited.
\<close>

datatype 'ws env_op = Env_add 'ws | Env_discard 'ws

fun env_step :: "'ws env_op \<Rightarrow> 'ws list \<Rightarrow> 'ws list" where
  "env_step (Env_add ws) cs = set_add ws cs"
| "env_step (Env_discard ws) cs = set_discard ws cs"

definition run_env :: "'ws env_op list \<Rightarrow> 'ws list \<Rightarrow> 'ws list" where
  "run_env ops cs = fold env_step ops cs"

type_synonym 'ws schedule = "'ws env_op list list"

definition sched_head :: "'ws schedule \<Rightarrow> 'ws env_op list" where
  "sched_head sched = (case sched of [] \<Rightarrow> [] | e # _ \<Rightarrow> e)"

text \<open>
  The \<open>for connection in connections\<close> loop over the snapshot. The state carried through
  is the live set (changed only by the others) and the local set \<open>stale\<close>.
\<close>

fun delivery_pass ::
  "'ws transport \<Rightarrow> 'msg \<Rightarrow> 'ws list \<Rightarrow> 'ws schedule \<Rightarrow> 'ws list \<Rightarrow> 'ws list
     \<Rightarrow> 'ws list \<times> 'ws list \<times> ('ws, 'msg) effect list" where
  "delivery_pass tr msg [] sched cs stale = (cs, stale, [])"
| "delivery_pass tr msg (c # rest) sched cs stale =
     (let cs1 = run_env (sched_head sched) cs;
          stale1 = (case send_json tr c msg of
                      Inl e \<Rightarrow> set_add c stale
                    | Inr _ \<Rightarrow> stale);
          (cs2, stale2, evs) = delivery_pass tr msg rest (tl sched) cs1 stale1
      in (cs2, stale2, Attempt c msg (tr c) # evs))"

definition broadcast ::
  "'ws transport \<Rightarrow> 'ws schedule \<Rightarrow> 'msg \<Rightarrow> 'ws connection_manager
     \<Rightarrow> (exc + unit) \<times> 'ws connection_manager \<times> ('ws, 'msg) effect list" where
  "broadcast tr sched msg m =
     (let snapshot = connections m;
          (cs, stale, evs) = delivery_pass tr msg snapshot sched (connections m) []
      in if stale \<noteq> []
         then (Inr (), m\<lparr>connections := fold set_discard stale cs\<rparr>, evs @ map Discarded stale)
         else (Inr (), m\<lparr>connections := cs\<rparr>, evs))"

text \<open>A history of the registry: calls of its three methods, one after the other.\<close>

datatype ('ws, 'msg) registry_call =
    Connect "'ws transport" 'ws
  | Disconnect 'ws
  | Broadcast "'ws transport" "'ws schedule" 'msg

fun registry_step ::
  "('ws, 'msg) registry_call \<Rightarrow> 'ws connection_manager \<Rightarrow> 'ws connection_manager" where
  "registry_step (Connect acc ws) m = fst (snd (connect acc ws m :: _ \<times> _ \<times> ('ws, 'msg) effect list))"
| "registry_step (Disconnect ws) m = fst (snd (disconnect ws m :: _ \<times> _ \<times> ('ws, 'msg) effect list))"
| "registry_step (Broadcast tr sched msg) m = fst (snd (broadcast tr sched msg m))"

definition registry_run ::
  "('ws, 'msg) registry_call list \<Rightarrow> 'ws connection_manager \<Rightarrow> 'ws connection_manager" where
  "registry_run calls m = fold registry_step calls m"

text \<open>The delivery attempts among the effects of a call, and those made to one observer.\<close>

fun attempt_to :: "'ws \<Rightarrow> ('ws, 'msg) effect \<Rightarrow> bool" where
  "attempt_to w (Attempt c msg r) = (c = w)"
| "attempt_to w (Accepted c) = False"
| "attempt_to w (Added c) = False"
| "attempt_to w (Discarded c) = False"

definition attempts_to :: "'ws \<Rightarrow> ('ws, 'msg) effect list \<Rightarrow> nat" where
  "attempts_to w evs = length (filter (attempt_to w) evs)"

text \<open>The delivery attempts of one message to one observer.\<close>

fun delivery_of :: "'ws \<Rightarrow> 'msg \<Rightarrow> ('ws, 'msg) effect \<Rightarrow> bool" where
  "delivery_of w msg (Attempt c msg' r) = (c = w \<and> msg' = msg)"
| "delivery_of w msg (Accepted c) = False"
| "delivery_of w msg (Added c) = False"
| "delivery_of w msg (Discarded c) = False"

definition deliveries :: "'ws \<Rightarrow> 'msg \<Rightarrow> ('ws, 'msg) effect list \<Rightarrow> nat" where
  "deliveries w msg evs = length (filter (delivery_of w msg) evs)"

section \<open>Python strings\<close>

text \<open>
  A Python \<open>str\<close> is a sequence of Unicode code points, here a list of their numbers.
  \<open>isspace\<close> is the whitespace test \<open>str.strip()\<close> uses: the code points CPython
  classifies as whitespace.
\<close>

type_synonym pystr = "nat list"

definition isspace :: "nat \<Rightarrow> bool" where
  "isspace c =
     (c \<in> set [9, 10, 11, 12, 13, 28, 29, 30, 31, 32, 133, 160, 5760,
                8232, 8233, 8239, 8287, 12288]
      \<or> (8192 \<le> c \<and> c \<le> 8202))"

definition strip :: "pystr \<Rightarrow> pystr" where
  "strip s = rev (dropWhile isspace (rev (dropWhile isspace s)))"

text \<open>
  Whether a string can be encoded as UTF-8, as it must be to be bound to a statement: the
  code points up to U+10FFFF that are not surrogates (U+D800 to U+DFFF). A Python string
  can hold a lone surrogate; a JSON body can carry one as an escape.
\<close>

definition encodable :: "pystr \<Rightarrow> bool" where
  "encodable s = list_all (\<lambda>c. c < 55296 \<or> (57343 < c \<and> c \<le> 1114111)) s"

section \<open>models.py and schemas.py\<close>

text \<open>
  The two tables. \<open>id_poll\<close> and \<open>id_option\<close> are the \<open>id\<close> columns, \<open>text_option\<close>
  is \<open>PollOption.text\<close>. \<open>created_at\<close> is a timestamp; the clock is outside the program
  and is passed in. Python's integers are unbounded, so the counters are \<open>int\<close>.
\<close>

record poll =
  id_poll :: int
  question :: pystr
  description :: "pystr option"
  created_at :: int
  likes :: int

record poll_option =
  id_option :: int
  text_option :: pystr
  votes :: int
  poll_id :: int

record poll_option_read =
  id_option_read :: int
  text_option_read :: pystr
  votes_read :: int

record poll_read =
  id_read :: int
  question_read :: pystr
  description_read :: "pystr option"
  likes_read :: int
  created_at_read :: int
  options_read :: "poll_option_read list"

record poll_create =
  question_create :: pystr
  description_create :: "pystr option"
  options_create :: "pystr list"

record vote_request =
  option_id :: int

section \<open>database.py: the store behind a session\<close>

text \<open>
  The database is the two tables, rows in insertion order. A new row gets the key SQLite
  gives an integer primary key: 1 in an empty table, otherwise one more than the largest
  key present. Keys and counters are 64-bit signed integers in SQLite, while the integers
  of the program are unbounded: \<open>int64\<close> is the range a statement accepts.
\<close>

record database =
  polls :: "poll list"
  poll_options :: "poll_option list"

definition init_db :: database where
  "init_db = \<lparr>polls = [], poll_options = []\<rparr>"

definition next_id :: "int list \<Rightarrow> int" where
  "next_id ids = (case ids of [] \<Rightarrow> 1 | x # xs \<Rightarrow> fold max xs x + 1)"

definition int64 :: "int \<Rightarrow> bool" where
  "int64 k = (- 9223372036854775808 \<le> k \<and> k \<le> 9223372036854775807)"

text \<open>The row with a given key in each table, if there is one.\<close>

definition option_row :: "database \<Rightarrow> int \<Rightarrow> poll_option option" where
  "option_row s k = find (\<lambda>x. id_option x = k) (poll_options s)"

definition poll_row :: "database \<Rightarrow> int \<Rightarrow> poll option" where
  "poll_row s k = find (\<lambda>p. id_poll p = k) (polls s)"

text \<open>
  \<open>session.get(PollOption, k)\<close> and the select of a poll by its key
  (\<open>select(Poll).where(Poll.id == k)\<close> with \<open>one_or_none()\<close>). Both bind the key to a
  statement, which raises \<open>OverflowError\<close> for a key outside the 64-bit range; otherwise
  they give the row or \<open>None\<close>.
\<close>

definition get_option :: "database \<Rightarrow> int \<Rightarrow> exc + poll_option option" where
  "get_option s k = (if int64 k then Inr (option_row s k) else Inl OverflowError)"

definition select_poll :: "database \<Rightarrow> int \<Rightarrow> exc + poll option" where
  "select_poll s k = (if int64 k then Inr (poll_row s k) else Inl OverflowError)"

text \<open>The relationship \<open>poll.options\<close>: the option rows whose foreign key is the poll.\<close>

definition options_of :: "database \<Rightarrow> poll \<Rightarrow> poll_option list" where
  "options_of s p = filter (\<lambda>x. poll_id x = id_poll p) (poll_options s)"

text \<open>
  The rows \<open>session.add(poll); session.commit()\<close> inserts for the options of a new poll:
  consecutive keys, zero votes (the column default), in the order of the list.
\<close>

fun new_options :: "int \<Rightarrow> int \<Rightarrow> pystr list \<Rightarrow> poll_option list" where
  "new_options pid k [] = []"
| "new_options pid k (t # ts) =
     \<lparr>id_option = k, text_option = t, votes = 0, poll_id = pid\<rparr> # new_options pid (k + 1) ts"

text \<open>
  An invariant of the store: keys are unique in each table, and every option row points
  to a poll row.
\<close>

definition store_wf :: "database \<Rightarrow> bool" where
  "store_wf s =
     (distinct (map id_poll (polls s)) \<and> distinct (map id_option (poll_options s))
      \<and> set (map poll_id (poll_options s)) \<subseteq> set (map id_poll (polls s)))"

section \<open>main.py\<close>

datatype failure = HTTPException nat string | Unhandled exc

datatype event =
    Poll_created poll_read
  | Poll_updated poll_read
  | Poll_snapshot "poll_read list"

record 'ws app =
  db :: database
  manager :: "'ws connection_manager"

definition init_app :: "'ws app" where
  "init_app = \<lparr>db = init_db, manager = init_manager\<rparr>"

definition serialize_option :: "poll_option \<Rightarrow> poll_option_read" where
  "serialize_option x =
     \<lparr>id_option_read = id_option x, text_option_read = text_option x, votes_read = votes x\<rparr>"

definition serialize_poll :: "database \<Rightarrow> poll \<Rightarrow> poll_read" where
  "serialize_poll s p =
     \<lparr>id_read = id_poll p, question_read = question p, description_read = description p,
      likes_read = likes p, created_at_read = created_at p,
      options_read = map serialize_option (options_of s p)\<rparr>"

text \<open>
  An exception that is not an \<open>HTTPException\<close> and leaves a handler is \<open>Unhandled\<close>:
  the server answers it with a 500.
\<close>

definition get_poll_with_options :: "database \<Rightarrow> int \<Rightarrow> failure + poll" where
  "get_poll_with_options s k =
     (case select_poll s k of
        Inl e \<Rightarrow> Inl (Unhandled e)
      | Inr None \<Rightarrow> Inl (HTTPException 404 ''Poll not found'')
      | Inr (Some p) \<Rightarrow> Inr p)"



definition get_poll :: "int \<Rightarrow> 'ws app \<Rightarrow> failure + poll_read" where
  "get_poll k a =
     (case get_poll_with_options (db a) k of
        Inl e \<Rightarrow> Inl e
      | Inr p \<Rightarrow> Inr (serialize_poll (db a) p))"

text \<open>
  The three mutating endpoints. Each returns its response (or the exception it raises),
  the application state it leaves, and the effects of its broadcast. The database part of
  a handler has no \<open>await\<close> in it, so it is one atomic step; the schedule is for the
  \<open>await manager.broadcast(...)\<close> at the end.
\<close>

definition publish ::
  "'ws transport \<Rightarrow> 'ws schedule \<Rightarrow> event \<Rightarrow> poll_read \<Rightarrow> 'ws app
     \<Rightarrow> (failure + poll_read) \<times> 'ws app \<times> ('ws, event) effect list" where
  "publish tr sched msg serialized a =
     (case broadcast tr sched msg (manager a) of
        (Inl e, m, evs) \<Rightarrow> (Inl (Unhandled e), a\<lparr>manager := m\<rparr>, evs)
      | (Inr _, m, evs) \<Rightarrow> (Inr serialized, a\<lparr>manager := m\<rparr>, evs))"

text \<open>
  What the three commits of \<open>main.py\<close> write. \<open>insert_poll\<close> is the tables after
  \<open>session.add(poll)\<close> for a new poll with its options, with the key the poll got;
  \<open>update_votes\<close> is the tables after the update that follows \<open>option.votes += 1\<close>,
  which writes the new count to the row with the option's key; \<open>update_likes\<close> is the
  same for \<open>poll.likes += 1\<close>.
\<close>

definition insert_poll ::
  "int \<Rightarrow> pystr \<Rightarrow> pystr option \<Rightarrow> pystr list \<Rightarrow> database \<Rightarrow> int \<times> database" where
  "insert_poll now q d texts s =
     (let k = next_id (map id_poll (polls s));
          p = \<lparr>id_poll = k, question = q, description = d, created_at = now, likes = 0\<rparr>
      in (k, s\<lparr>polls := polls s @ [p],
               poll_options := poll_options s
                 @ new_options k (next_id (map id_option (poll_options s))) texts\<rparr>))"

definition update_votes :: "poll_option \<Rightarrow> database \<Rightarrow> database" where
  "update_votes option s =
     s\<lparr>poll_options := map (\<lambda>x. if id_option x = id_option option
                                 then x\<lparr>votes := votes option + 1\<rparr> else x) (poll_options s)\<rparr>"

definition update_likes :: "poll \<Rightarrow> database \<Rightarrow> database" where
  "update_likes p s =
     s\<lparr>polls := map (\<lambda>q. if id_poll q = id_poll p
                          then q\<lparr>likes := likes p + 1\<rparr> else q) (polls s)\<rparr>"

text \<open>
  \<open>session.commit()\<close> can raise, and then nothing is written. The texts of a new poll
  must be encodable, and its keys must exist: \<open>has_room\<close> says that the keys the new rows
  would get are 64-bit integers. (When the largest key of a table is the largest 64-bit
  integer, SQLite looks for a free key at random and raises only when it finds none; the
  search is not followed here, the commit raises.) The new count of a vote or a like must
  be a 64-bit integer.
\<close>

definition storable :: "pystr \<Rightarrow> pystr option \<Rightarrow> pystr list \<Rightarrow> bool" where
  "storable q d texts =
     (encodable q \<and> (case d of None \<Rightarrow> True | Some t \<Rightarrow> encodable t) \<and> list_all encodable texts)"

definition has_room :: "database \<Rightarrow> pystr list \<Rightarrow> bool" where
  "has_room s texts =
     (int64 (next_id (map id_poll (polls s)))
      \<and> list_all int64
            (map id_option
               (new_options (next_id (map id_poll (polls s)))
                  (next_id (map id_option (poll_options s))) texts)))"

definition commit_poll ::
  "int \<Rightarrow> pystr \<Rightarrow> pystr option \<Rightarrow> pystr list \<Rightarrow> database \<Rightarrow> exc + int \<times> database" where
  "commit_poll now q d texts s =
     (if \<not> storable q d texts then Inl UnicodeEncodeError
      else if \<not> has_room s texts then Inl OperationalError
      else Inr (insert_poll now q d texts s))"

definition commit_vote :: "poll_option \<Rightarrow> database \<Rightarrow> exc + database" where
  "commit_vote option s =
     (if int64 (votes option + 1) then Inr (update_votes option s) else Inl OverflowError)"

definition commit_like :: "poll \<Rightarrow> database \<Rightarrow> exc + database" where
  "commit_like p s =
     (if int64 (likes p + 1) then Inr (update_likes p s) else Inl OverflowError)"

definition create_poll ::
  "'ws transport \<Rightarrow> 'ws schedule \<Rightarrow> int \<Rightarrow> poll_create \<Rightarrow> 'ws app
     \<Rightarrow> (failure + poll_read) \<times> 'ws app \<times> ('ws, event) effect list" where
  "create_poll tr sched now payload a =
     (let options = map strip (filter (\<lambda>option. strip option \<noteq> []) (options_create payload))
      in if length options < 2
         then (Inl (HTTPException 400 ''A poll requires at least two options.''), a, [])
         else
           (case commit_poll now (strip (question_create payload)) (description_create payload)
                   options (db a) of
              Inl e \<Rightarrow> (Inl (Unhandled e), a, [])
            | Inr (k, s') \<Rightarrow>
                (case get_poll_with_options s' k of
                   Inl e \<Rightarrow> (Inl e, a\<lparr>db := s'\<rparr>, [])
                 | Inr p \<Rightarrow>
                     publish tr sched (Poll_created (serialize_poll s' p)) (serialize_poll s' p)
                       (a\<lparr>db := s'\<rparr>))))"

definition vote_on_poll ::
  "'ws transport \<Rightarrow> 'ws schedule \<Rightarrow> int \<Rightarrow> vote_request \<Rightarrow> 'ws app
     \<Rightarrow> (failure + poll_read) \<times> 'ws app \<times> ('ws, event) effect list" where
  "vote_on_poll tr sched k vote a =
     (case get_poll_with_options (db a) k of
        Inl e \<Rightarrow> (Inl e, a, [])
      | Inr p \<Rightarrow>
          (case get_option (db a) (option_id vote) of
             Inl e \<Rightarrow> (Inl (Unhandled e), a, [])
           | Inr None \<Rightarrow>
               (Inl (HTTPException 400 ''Option does not belong to this poll.''), a, [])
           | Inr (Some option) \<Rightarrow>
               if poll_id option \<noteq> id_poll p
               then (Inl (HTTPException 400 ''Option does not belong to this poll.''), a, [])
               else
                 (case commit_vote option (db a) of
                    Inl e \<Rightarrow> (Inl (Unhandled e), a, [])
                  | Inr s' \<Rightarrow>
                      (case get_poll_with_options s' k of
                         Inl e \<Rightarrow> (Inl e, a\<lparr>db := s'\<rparr>, [])
                       | Inr p' \<Rightarrow>
                           publish tr sched (Poll_updated (serialize_poll s' p'))
                             (serialize_poll s' p') (a\<lparr>db := s'\<rparr>)))))"

definition like_poll ::
  "'ws transport \<Rightarrow> 'ws schedule \<Rightarrow> int \<Rightarrow> 'ws app
     \<Rightarrow> (failure + poll_read) \<times> 'ws app \<times> ('ws, event) effect list" where
  "like_poll tr sched k a =
     (case get_poll_with_options (db a) k of
        Inl e \<Rightarrow> (Inl e, a, [])
      | Inr p \<Rightarrow>
          (case commit_like p (db a) of
             Inl e \<Rightarrow> (Inl (Unhandled e), a, [])
           | Inr s' \<Rightarrow>
               (case get_poll_with_options s' k of
                  Inl e \<Rightarrow> (Inl e, a\<lparr>db := s'\<rparr>, [])
                | Inr p' \<Rightarrow>
                    publish tr sched (Poll_updated (serialize_poll s' p'))
                      (serialize_poll s' p') (a\<lparr>db := s'\<rparr>))))"

text \<open>A history of the service: requests handled one after the other.\<close>

datatype 'ws request =
    Create_poll "'ws transport" "'ws schedule" int poll_create
  | Vote_on_poll "'ws transport" "'ws schedule" int vote_request
  | Like_poll "'ws transport" "'ws schedule" int

fun handle :: "'ws request \<Rightarrow> 'ws app \<Rightarrow> 'ws app" where
  "handle (Create_poll tr sched now payload) a = fst (snd (create_poll tr sched now payload a))"
| "handle (Vote_on_poll tr sched k vote) a = fst (snd (vote_on_poll tr sched k vote a))"
| "handle (Like_poll tr sched k) a = fst (snd (like_poll tr sched k a))"

definition serve :: "'ws request list \<Rightarrow> 'ws app \<Rightarrow> 'ws app" where
  "serve reqs a = fold handle reqs a"







text \<open>
  The order on stores in which counters only grow: every row of \<open>s\<close> is still there in
  \<open>s'\<close>, at the same place and with the same keys, and its counter is not smaller.
\<close>

definition counters_le :: "database \<Rightarrow> database \<Rightarrow> bool" where
  "counters_le s s' =
     (length (polls s) \<le> length (polls s')
      \<and> list_all2 (\<lambda>p p'. id_poll p' = id_poll p \<and> likes p \<le> likes p')
            (polls s) (take (length (polls s)) (polls s'))
      \<and> length (poll_options s) \<le> length (poll_options s')
      \<and> list_all2 (\<lambda>x x'. id_option x' = id_option x \<and> poll_id x' = poll_id x
                              \<and> votes x \<le> votes x')
            (poll_options s) (take (length (poll_options s)) (poll_options s')))"

text \<open>
  A small application state to run the endpoints on: two polls with two options each, the
  second option of the first poll with three votes, and two observers connected.
\<close>

definition example_db :: database where
  "example_db =
     \<lparr>polls =
        [\<lparr>id_poll = 1, question = [84, 101, 97, 63], description = None, created_at = 5,
          likes = 0\<rparr>,
         \<lparr>id_poll = 2, question = [67, 97, 116, 63], description = None, created_at = 7,
          likes = 4\<rparr>],
      poll_options =
        [\<lparr>id_option = 1, text_option = [84], votes = 0, poll_id = 1\<rparr>,
         \<lparr>id_option = 2, text_option = [67], votes = 3, poll_id = 1\<rparr>,
         \<lparr>id_option = 3, text_option = [89], votes = 1, poll_id = 2\<rparr>,
         \<lparr>id_option = 4, text_option = [78], votes = 0, poll_id = 2\<rparr>]\<rparr>"

definition example_app :: "nat app" where
  "example_app = \<lparr>db = example_db, manager = \<lparr>connections = [1, 2]\<rparr>\<rparr>"


section \<open>The registry: auxiliary facts\<close>

lemma set_set_add: "set (set_add x xs) = insert x (set xs)"
  by (auto simp: set_add_def)

lemma distinct_set_add: "distinct xs \<Longrightarrow> distinct (set_add x xs)"
  by (simp add: set_add_def)

lemma set_set_discard: "set (set_discard x xs) = set xs - {x}"
  by (auto simp: set_discard_def)

lemma distinct_set_discard: "distinct xs \<Longrightarrow> distinct (set_discard x xs)"
  by (simp add: set_discard_def distinct_removeAll)

lemma set_fold_discard: "set (fold set_discard st cs) = set cs - set st"
  by (induction st arbitrary: cs) (auto simp: set_set_discard)

lemma distinct_fold_discard: "distinct cs \<Longrightarrow> distinct (fold set_discard st cs)"
  by (induction st arbitrary: cs) (simp_all add: distinct_set_discard)

lemma distinct_env_step: "distinct cs \<Longrightarrow> distinct (env_step e cs)"
  by (cases e) (simp_all add: distinct_set_add distinct_set_discard)

lemma distinct_run_env: "distinct cs \<Longrightarrow> distinct (run_env es cs)"
  unfolding run_env_def by (induction es arbitrary: cs) (simp_all add: distinct_env_step)

lemma run_env_append: "run_env (xs @ ys) cs = run_env ys (run_env xs cs)"
  by (simp add: run_env_def)

lemma concat_take_Suc: "concat (take (Suc n) sched) = sched_head sched @ concat (take n (tl sched))"
  by (cases sched) (simp_all add: sched_head_def)

lemma delivery_pass_Cons:
  "delivery_pass tr msg (c # rest) sched cs stale =
     (fst (delivery_pass tr msg rest (tl sched) (run_env (sched_head sched) cs)
            (case send_json tr c msg of Inl e \<Rightarrow> set_add c stale | Inr _ \<Rightarrow> stale)),
      fst (snd (delivery_pass tr msg rest (tl sched) (run_env (sched_head sched) cs)
            (case send_json tr c msg of Inl e \<Rightarrow> set_add c stale | Inr _ \<Rightarrow> stale))),
      Attempt c msg (tr c)
        # snd (snd (delivery_pass tr msg rest (tl sched) (run_env (sched_head sched) cs)
            (case send_json tr c msg of Inl e \<Rightarrow> set_add c stale | Inr _ \<Rightarrow> stale))))"
  by (simp only: delivery_pass.simps Let_def case_prod_beta)

lemma delivery_pass_live:
  "fst (delivery_pass tr msg snap sched cs stale) = run_env (concat (take (length snap) sched)) cs"
proof (induction snap arbitrary: sched cs stale)
  case Nil
  show ?case by (simp add: run_env_def)
next
  case (Cons c rest)
  show ?case
    by (simp only: delivery_pass_Cons fst_conv Cons.IH length_Cons concat_take_Suc run_env_append)
qed

lemma delivery_pass_stale:
  "set (fst (snd (delivery_pass tr msg snap sched cs stale)))
     = set stale \<union> {c \<in> set snap. tr c \<noteq> None}"
proof (induction snap arbitrary: sched cs stale)
  case Nil
  show ?case by simp
next
  case (Cons c rest)
  have "set (fst (snd (delivery_pass tr msg (c # rest) sched cs stale)))
          = set (case send_json tr c msg of Inl e \<Rightarrow> set_add c stale | Inr _ \<Rightarrow> stale)
              \<union> {c \<in> set rest. tr c \<noteq> None}"
    by (simp only: delivery_pass_Cons fst_conv snd_conv Cons.IH)
  also have "\<dots> = set stale \<union> {x \<in> set (c # rest). tr x \<noteq> None}"
    by (cases "tr c") (auto simp: send_json_def set_set_add)
  finally show ?case .
qed

lemma delivery_pass_effects:
  "snd (snd (delivery_pass tr msg snap sched cs stale)) = map (\<lambda>c. Attempt c msg (tr c)) snap"
proof (induction snap arbitrary: sched cs stale)
  case Nil
  show ?case by simp
next
  case (Cons c rest)
  show ?case by (simp only: delivery_pass_Cons snd_conv Cons.IH list.map)
qed

lemma attempts_to_map:
  "attempts_to w (map (\<lambda>c. Attempt c msg (f c)) xs) = count_list xs w"
  by (induction xs) (simp_all add: attempts_to_def)

lemma attempts_to_append: "attempts_to w (xs @ ys) = attempts_to w xs + attempts_to w ys"
  by (simp add: attempts_to_def)

lemma attempts_to_Discarded: "attempts_to w (map Discarded xs) = 0"
  by (induction xs) (simp_all add: attempts_to_def)

lemma deliveries_map:
  "deliveries w msg (map (\<lambda>c. Attempt c msg (f c)) xs) = count_list xs w"
  by (induction xs) (simp_all add: deliveries_def)

lemma deliveries_append: "deliveries w msg (xs @ ys) = deliveries w msg xs + deliveries w msg ys"
  by (simp add: deliveries_def)

lemma deliveries_Discarded: "deliveries w msg (map Discarded xs) = 0"
  by (induction xs) (simp_all add: deliveries_def)

lemma broadcast_effects:
  "attempts_to w (snd (snd (broadcast tr sched msg m))) = count_list (connections m) w"
proof -
  obtain cs stale evs where d: "delivery_pass tr msg (connections m) sched (connections m) [] = (cs, stale, evs)"
    by (cases "delivery_pass tr msg (connections m) sched (connections m) []") auto
  have "evs = map (\<lambda>c. Attempt c msg (tr c)) (connections m)"
    using delivery_pass_effects [of tr msg "connections m" sched "connections m" "[]"] d by simp
  then show ?thesis
    by (simp add: broadcast_def d Let_def attempts_to_append attempts_to_Discarded attempts_to_map)
qed

lemma broadcast_connections:
  "set (connections (fst (snd (broadcast tr sched msg m))))
     = set (run_env (concat (take (length (connections m)) sched)) (connections m))
         - {c \<in> set (connections m). tr c \<noteq> None}"
proof -
  obtain cs stale evs where d: "delivery_pass tr msg (connections m) sched (connections m) [] = (cs, stale, evs)"
    by (cases "delivery_pass tr msg (connections m) sched (connections m) []") auto
  have cs: "cs = run_env (concat (take (length (connections m)) sched)) (connections m)"
    using delivery_pass_live [of tr msg "connections m" sched "connections m" "[]"] d by simp
  have st: "set stale = {c \<in> set (connections m). tr c \<noteq> None}"
    using delivery_pass_stale [of tr msg "connections m" sched "connections m" "[]"] d by simp
  show ?thesis
  proof (cases "stale = []")
    case True
    with st have "{c \<in> set (connections m). tr c \<noteq> None} = {}" by simp
    with True show ?thesis by (auto simp: broadcast_def d Let_def cs)
  next
    case False
    then show ?thesis by (simp add: broadcast_def d Let_def set_fold_discard st cs)
  qed
qed

lemma broadcast_distinct:
  "distinct (connections m) \<Longrightarrow> distinct (connections (fst (snd (broadcast tr sched msg m))))"
proof -
  assume dm: "distinct (connections m)"
  obtain cs stale evs where d: "delivery_pass tr msg (connections m) sched (connections m) [] = (cs, stale, evs)"
    by (cases "delivery_pass tr msg (connections m) sched (connections m) []") auto
  have cs: "cs = run_env (concat (take (length (connections m)) sched)) (connections m)"
    using delivery_pass_live [of tr msg "connections m" sched "connections m" "[]"] d by simp
  have "distinct cs" unfolding cs by (rule distinct_run_env [OF dm])
  then show ?thesis
    by (simp add: broadcast_def d Let_def distinct_fold_discard)
qed

lemma registry_step_distinct:
  "distinct (connections m) \<Longrightarrow> distinct (connections (registry_step call m))"
proof (cases call)
  case (Connect acc ws)
  assume "distinct (connections m)"
  then show ?thesis using Connect
    by (simp add: connect_def accept_def distinct_set_add split: option.splits)
next
  case (Disconnect ws)
  assume "distinct (connections m)"
  then show ?thesis using Disconnect by (simp add: disconnect_def distinct_set_discard)
next
  case (Broadcast tr sched msg)
  assume "distinct (connections m)"
  then show ?thesis using Broadcast by (simp add: broadcast_distinct)
qed

lemma registry_run_distinct:
  "distinct (connections m) \<Longrightarrow> distinct (connections (registry_run calls m))"
  unfolding registry_run_def
  by (induction calls arbitrary: m) (simp_all add: registry_step_distinct)

lemma count_list_distinct: "distinct xs \<Longrightarrow> count_list xs w = (if w \<in> set xs then 1 else 0)"
  by (induction xs) auto

lemma registry_run_snoc: "registry_run (calls @ [c]) m = registry_step c (registry_run calls m)"
  by (simp add: registry_run_def)

lemma registry_run_init_distinct:
  "distinct (connections (registry_run calls init_manager))"
  by (rule registry_run_distinct) (simp add: init_manager_def)

lemma broadcast_deliveries:
  "deliveries w msg (snd (snd (broadcast tr sched msg m))) = count_list (connections m) w"
proof -
  obtain cs stale evs where d: "delivery_pass tr msg (connections m) sched (connections m) [] = (cs, stale, evs)"
    by (cases "delivery_pass tr msg (connections m) sched (connections m) []") auto
  have "evs = map (\<lambda>c. Attempt c msg (tr c)) (connections m)"
    using delivery_pass_effects [of tr msg "connections m" sched "connections m" "[]"] d by simp
  then show ?thesis
    by (simp add: broadcast_def d Let_def deliveries_append deliveries_Discarded deliveries_map)
qed

lemma registry_run_connect:
  assumes "accept acc w = Inr ()"
  shows "w \<in> set (connections (registry_run (calls @ [Connect acc w]) m))"
  by (simp add: registry_run_snoc connect_def assms set_set_add)

lemma registry_run_disconnect:
  "w \<notin> set (connections (registry_run (calls @ [Disconnect w]) m))"
  by (simp add: registry_run_snoc disconnect_def set_set_discard)


section \<open>The registry: claims\<close>

text \<open>
  Claim C2. Take any history of connect, disconnect and broadcast calls, and then a
  broadcast of an event. Whatever the others do to the registry while the sends are awaited,
  and whatever the outcome of each send, the broadcast makes exactly one delivery attempt of
  that event to each observer that is in the live set when the snapshot is taken, none to
  any other observer, and no attempt of any other message. An observer that is live during
  the whole call is in the snapshot. In particular an observer whose \<open>connect\<close> is the
  last call of the history and succeeded gets exactly one attempt of the event, and an
  observer whose \<open>disconnect\<close> is the last call gets none.
\<close>

theorem broadcast_one_attempt_per_live_observer:
  "deliveries w msg (snd (snd (broadcast tr sched msg (registry_run calls init_manager))))
     = (if w \<in> set (connections (registry_run calls init_manager)) then 1 else 0)
   \<and> attempts_to w (snd (snd (broadcast tr sched msg (registry_run calls init_manager))))
     = deliveries w msg (snd (snd (broadcast tr sched msg (registry_run calls init_manager))))
   \<and> (accept acc w = Inr ()
      \<longrightarrow> deliveries w msg
            (snd (snd (broadcast tr sched msg
               (registry_run (calls @ [Connect acc w]) init_manager)))) = 1)
   \<and> deliveries w msg
        (snd (snd (broadcast tr sched msg
           (registry_run (calls @ [Disconnect w]) init_manager)))) = 0"
proof (intro conjI impI)
  show "deliveries w msg (snd (snd (broadcast tr sched msg (registry_run calls init_manager))))
     = (if w \<in> set (connections (registry_run calls init_manager)) then 1 else 0)"
    by (simp only: broadcast_deliveries count_list_distinct [OF registry_run_init_distinct])
next
  show "attempts_to w (snd (snd (broadcast tr sched msg (registry_run calls init_manager))))
     = deliveries w msg (snd (snd (broadcast tr sched msg (registry_run calls init_manager))))"
    by (simp only: broadcast_deliveries broadcast_effects)
next
  assume "accept acc w = Inr ()"
  then have "w \<in> set (connections (registry_run (calls @ [Connect acc w]) init_manager))"
    by (rule registry_run_connect)
  then show "deliveries w msg
            (snd (snd (broadcast tr sched msg
               (registry_run (calls @ [Connect acc w]) init_manager)))) = 1"
    by (simp only: broadcast_deliveries count_list_distinct [OF registry_run_init_distinct]
        if_True)
next
  have "w \<notin> set (connections (registry_run (calls @ [Disconnect w]) init_manager))"
    by (rule registry_run_disconnect)
  then show "deliveries w msg
        (snd (snd (broadcast tr sched msg
           (registry_run (calls @ [Disconnect w]) init_manager)))) = 0"
    by (simp only: broadcast_deliveries count_list_distinct [OF registry_run_init_distinct]
        if_False)
qed

theorem broadcast_one_attempt_per_live_observer_witness:
  "accept (\<lambda>w::nat. None) 3 = Inr ()
   \<and> deliveries 3 ''e''
        (snd (snd (broadcast (\<lambda>w::nat. if w = 2 then Some OtherException else None)
           [[Env_discard 3]] ''e''
           (registry_run ([Connect (\<lambda>w. None) 1, Connect (\<lambda>w. None) 2,
                           Broadcast (\<lambda>w. None) [] ''d'', Disconnect 1]
                          @ [Connect (\<lambda>w. None) 3]) init_manager)))) = 1
   \<and> snd (snd (broadcast (\<lambda>w::nat. if w = 2 then Some OtherException else None)
        [[Env_discard 3]] ''e''
        (registry_run ([Connect (\<lambda>w. None) 1, Connect (\<lambda>w. None) 2,
                        Broadcast (\<lambda>w. None) [] ''d'', Disconnect 1]
                       @ [Connect (\<lambda>w. None) 3]) init_manager)))
       = [Attempt 2 ''e'' (Some OtherException), Attempt 3 ''e'' None, Discarded 2]"
proof -
  have h: "accept (\<lambda>w::nat. None) 3 = Inr ()" by (simp add: accept_def)
  note t = broadcast_one_attempt_per_live_observer
    [THEN conjunct2, THEN conjunct2, THEN conjunct1, THEN mp, OF h]
  have e: "snd (snd (broadcast (\<lambda>w::nat. if w = 2 then Some OtherException else None)
        [[Env_discard 3]] ''e''
        (registry_run ([Connect (\<lambda>w. None) 1, Connect (\<lambda>w. None) 2,
                        Broadcast (\<lambda>w. None) [] ''d'', Disconnect 1]
                       @ [Connect (\<lambda>w. None) 3]) init_manager)))
       = [Attempt 2 ''e'' (Some OtherException), Attempt 3 ''e'' None, Discarded 2]"
    by (simp add: registry_run_def init_manager_def connect_def disconnect_def accept_def
        broadcast_def Let_def sched_head_def run_env_def set_add_def set_discard_def
        send_json_def)
  show ?thesis by (rule conjI [OF h conjI [OF t e]])
qed

text \<open>
  Claim C5. \<open>broadcast\<close> always returns normally. The observers it marks stale are exactly
  those of the snapshot whose send raised, and after the delivery pass none of them is left
  in the live set: the live set is what the delivery pass left, minus the stale observers.
\<close>

theorem broadcast_contains_delivery_failures:
  assumes "delivery_pass tr msg (connections m) sched (connections m) [] = (cs, stale, evs)"
  shows "fst (broadcast tr sched msg m) = Inr ()
     \<and> set stale = {c \<in> set (connections m). send_json tr c msg \<noteq> Inr ()}
     \<and> set (connections (fst (snd (broadcast tr sched msg m)))) = set cs - set stale
     \<and> set (connections (fst (snd (broadcast tr sched msg m)))) \<inter> set stale = {}"
proof -
  have st: "set stale = {c \<in> set (connections m). tr c \<noteq> None}"
    using delivery_pass_stale [of tr msg "connections m" sched "connections m" "[]"] assms by simp
  have fails: "\<And>c. (send_json tr c msg = Inr ()) = (tr c = None)"
    by (simp add: send_json_def split: option.splits)
  have r: "fst (broadcast tr sched msg m) = Inr ()"
    by (simp add: broadcast_def assms Let_def)
  have fin: "set (connections (fst (snd (broadcast tr sched msg m)))) = set cs - set stale"
    by (cases "stale = []") (simp_all add: broadcast_def assms Let_def set_fold_discard)
  from r st fin show ?thesis
    by (auto simp: fails)
qed

theorem broadcast_contains_delivery_failures_witness:
  "delivery_pass (\<lambda>w::nat. if w = 2 then Some OtherException else None) ()
       (connections \<lparr>connections = [1, 2, 3]\<rparr>) [[Env_add 9], [Env_discard 1]]
       (connections \<lparr>connections = [1, 2, 3]\<rparr>) []
     = ([2, 3, 9], [2], [Attempt 1 () None, Attempt 2 () (Some OtherException), Attempt 3 () None])
   \<and> broadcast (\<lambda>w::nat. if w = 2 then Some OtherException else None)
         [[Env_add 9], [Env_discard 1]] () \<lparr>connections = [1, 2, 3]\<rparr>
       = (Inr (), \<lparr>connections = [3, 9]\<rparr>,
          [Attempt 1 () None, Attempt 2 () (Some OtherException), Attempt 3 () None, Discarded 2])"
proof -
  have h: "delivery_pass (\<lambda>w::nat. if w = 2 then Some OtherException else None) ()
       (connections \<lparr>connections = [1, 2, 3]\<rparr>) [[Env_add 9], [Env_discard 1]]
       (connections \<lparr>connections = [1, 2, 3]\<rparr>) []
     = ([2, 3, 9], [2], [Attempt 1 () None, Attempt 2 () (Some OtherException), Attempt 3 () None])"
    by (simp add: Let_def sched_head_def run_env_def set_add_def set_discard_def send_json_def)
  show ?thesis
    using h broadcast_contains_delivery_failures [OF h]
    by (simp add: broadcast_def Let_def set_discard_def)
qed

text \<open>
  Claim C10. During the delivery loop the live set changes only by the steps of the others
  (\<open>cs\<close> is the live set when the loop ends). The cleanup then only removes: an observer
  that is live when the loop ends and gone after the call was in the snapshot and its own
  send raised. So an observer that joined while the loop was running (it is not in the
  snapshot) stays, and so does an observer whose send returned.
\<close>

theorem broadcast_removes_only_failed:
  assumes "delivery_pass tr msg (connections m) sched (connections m) [] = (cs, stale, evs)"
  shows "cs = run_env (concat (take (length (connections m)) sched)) (connections m)
     \<and> set (connections (fst (snd (broadcast tr sched msg m)))) \<subseteq> set cs
     \<and> (\<forall>w. w \<in> set cs \<and> w \<notin> set (connections (fst (snd (broadcast tr sched msg m))))
            \<longrightarrow> w \<in> set (connections m) \<and> send_json tr w msg \<noteq> Inr ())
     \<and> (\<forall>w. w \<in> set cs \<and> w \<notin> set (connections m)
            \<longrightarrow> w \<in> set (connections (fst (snd (broadcast tr sched msg m)))))
     \<and> (\<forall>w. w \<in> set cs \<and> send_json tr w msg = Inr ()
            \<longrightarrow> w \<in> set (connections (fst (snd (broadcast tr sched msg m)))))"
proof -
  have cs: "cs = run_env (concat (take (length (connections m)) sched)) (connections m)"
    using delivery_pass_live [of tr msg "connections m" sched "connections m" "[]"] assms by simp
  have fails: "\<And>c. (send_json tr c msg = Inr ()) = (tr c = None)"
    by (simp add: send_json_def split: option.splits)
  have fin: "set (connections (fst (snd (broadcast tr sched msg m))))
               = set cs - {c \<in> set (connections m). tr c \<noteq> None}"
    unfolding cs by (rule broadcast_connections)
  have "set (connections (fst (snd (broadcast tr sched msg m)))) \<subseteq> set cs
     \<and> (\<forall>w. w \<in> set cs \<and> w \<notin> set (connections (fst (snd (broadcast tr sched msg m))))
            \<longrightarrow> w \<in> set (connections m) \<and> send_json tr w msg \<noteq> Inr ())
     \<and> (\<forall>w. w \<in> set cs \<and> w \<notin> set (connections m)
            \<longrightarrow> w \<in> set (connections (fst (snd (broadcast tr sched msg m)))))
     \<and> (\<forall>w. w \<in> set cs \<and> send_json tr w msg = Inr ()
            \<longrightarrow> w \<in> set (connections (fst (snd (broadcast tr sched msg m)))))"
    unfolding fin by (auto simp: fails)
  with cs show ?thesis by (rule conjI)
qed

theorem broadcast_removes_only_failed_witness:
  "delivery_pass (\<lambda>w::nat. if w = 2 then Some OtherException else None) ()
       (connections \<lparr>connections = [1, 2, 3::nat]\<rparr>) [[Env_add (9::nat)], [Env_discard 1]]
       (connections \<lparr>connections = [1, 2, 3::nat]\<rparr>) []
     = ([2, 3, 9], [2], [Attempt 1 () None, Attempt 2 () (Some OtherException), Attempt 3 () None])
   \<and> connections (fst (snd (broadcast (\<lambda>w::nat. if w = 2 then Some OtherException else None)
         [[Env_add (9::nat)], [Env_discard 1]] () \<lparr>connections = [1, 2, 3::nat]\<rparr>))) = [3, 9::nat]
   \<and> run_env (concat (take (length (connections \<lparr>connections = [1, 2, 3::nat]\<rparr>))
         [[Env_add (9::nat)], [Env_discard 1]])) (connections \<lparr>connections = [1, 2, 3::nat]\<rparr>) = [2, 3, 9::nat]"
proof -
  have h: "delivery_pass (\<lambda>w::nat. if w = 2 then Some OtherException else None) ()
       (connections \<lparr>connections = [1, 2, 3::nat]\<rparr>) [[Env_add (9::nat)], [Env_discard 1]]
       (connections \<lparr>connections = [1, 2, 3::nat]\<rparr>) []
     = ([2, 3, 9], [2], [Attempt 1 () None, Attempt 2 () (Some OtherException), Attempt 3 () None])"
    by (simp add: Let_def sched_head_def run_env_def set_add_def set_discard_def send_json_def)
  have a: "connections (fst (snd (broadcast (\<lambda>w::nat. if w = 2 then Some OtherException else None)
         [[Env_add (9::nat)], [Env_discard 1]] () \<lparr>connections = [1, 2, 3::nat]\<rparr>))) = [3, 9::nat]"
    by (simp add: broadcast_def Let_def sched_head_def run_env_def set_add_def set_discard_def
          send_json_def)
  have b: "run_env (concat (take (length (connections \<lparr>connections = [1, 2, 3::nat]\<rparr>))
         [[Env_add (9::nat)], [Env_discard 1]])) (connections \<lparr>connections = [1, 2, 3::nat]\<rparr>) = [2, 3, 9::nat]"
    by (rule broadcast_removes_only_failed [OF h, THEN conjunct1, symmetric])
  from h a b show ?thesis by (intro conjI)
qed

text \<open>
  Claim C4, as the code has it. \<open>connect\<close> performs the handshake itself. When
  \<open>accept\<close> returns, \<open>connect\<close> returns normally and has added the observer to the live
  set; when \<open>accept\<close> raises, \<open>connect\<close> raises the same exception and the live set is as
  it was.
\<close>

theorem connect_registers_after_handshake:
  "(accept acc ws = Inr ()
      \<longrightarrow> connect acc ws m
            = (Inr (), m\<lparr>connections := set_add ws (connections m)\<rparr>,
               [Accepted ws, Added ws] :: ('a, 'msg) effect list)
          \<and> set (connections (fst (snd (connect acc ws m :: _ \<times> _ \<times> ('a, 'msg) effect list))))
              = insert ws (set (connections m)))
   \<and> (accept acc ws = Inl e
      \<longrightarrow> connect acc ws m = (Inl e, m, [] :: ('a, 'msg) effect list))"
  by (simp add: connect_def set_set_add)

theorem connect_registers_after_handshake_witness:
  "accept (\<lambda>w::nat. None) 4 = Inr ()
   \<and> connect (\<lambda>w::nat. None) 4 \<lparr>connections = [1]\<rparr>
       = (Inr (), \<lparr>connections = [1, 4]\<rparr>, [Accepted 4, Added (4::nat)] :: (nat, unit) effect list)
   \<and> accept (\<lambda>w::nat. Some WebSocketDisconnect) 4 = Inl WebSocketDisconnect
   \<and> connect (\<lambda>w::nat. Some WebSocketDisconnect) 4 \<lparr>connections = [1]\<rparr>
       = (Inl WebSocketDisconnect, \<lparr>connections = [1]\<rparr>, [] :: (nat, unit) effect list)"
  using connect_registers_after_handshake [of "\<lambda>w::nat. None" 4 "\<lparr>connections = [1]\<rparr>" WebSocketDisconnect, where ?'msg = unit]
    connect_registers_after_handshake [of "\<lambda>w::nat. Some WebSocketDisconnect" 4 "\<lparr>connections = [1]\<rparr>" WebSocketDisconnect, where ?'msg = unit]
  by (simp add: accept_def set_add_def)

text \<open>
  Against C4 as stated: a \<open>connect\<close> whose handshake raises fails.
\<close>

theorem connect_can_fail_counterexample:
  "fst (connect (\<lambda>w::nat. Some OtherException) 4 \<lparr>connections = [1]\<rparr>
         :: (exc + unit) \<times> nat connection_manager \<times> (nat, unit) effect list)
     = Inl OtherException"
  by (simp add: connect_def accept_def)

section \<open>Strings: auxiliary facts\<close>

lemma dropWhile_hd: "dropWhile P xs \<noteq> [] \<Longrightarrow> \<not> P (hd (dropWhile P xs))"
  by (rule hd_dropWhile)

lemma last_dropWhile: "dropWhile P xs \<noteq> [] \<Longrightarrow> last (dropWhile P xs) = last xs"
  by (induction xs) (auto split: if_splits)

lemma strip_trimmed:
  "strip s = [] \<or> (\<not> isspace (hd (strip s)) \<and> \<not> isspace (last (strip s)))"
proof (cases "strip s = []")
  case True
  then show ?thesis by simp
next
  case False
  define t where "t = dropWhile isspace s"
  define u where "u = dropWhile isspace (rev t)"
  have su: "strip s = rev u" by (simp only: strip_def t_def u_def)
  with False have u: "u \<noteq> []" by simp
  then have "\<not> isspace (hd u)" unfolding u_def by (rule dropWhile_hd)
  then have l: "\<not> isspace (last (strip s))" using u by (simp add: su last_rev)
  have "last u = last (rev t)" using u unfolding u_def by (rule last_dropWhile)
  moreover have t: "t \<noteq> []"
  proof
    assume "t = []"
    then have "u = []" by (simp only: u_def rev.simps dropWhile.simps)
    with u show False by simp
  qed
  ultimately have "last u = hd t" by (simp add: last_rev)
  moreover have "\<not> isspace (hd t)" using t unfolding t_def by (rule dropWhile_hd)
  ultimately have "\<not> isspace (hd (strip s))" using u by (simp add: su hd_rev)
  with l show ?thesis by simp
qed

lemma all_takeWhile: "list_all P (takeWhile P xs)"
  by (induction xs) simp_all

lemma strip_part:
  "\<exists>pre post. s = pre @ strip s @ post \<and> list_all isspace pre \<and> list_all isspace post"
proof -
  define t where "t = dropWhile isspace s"
  define u where "u = dropWhile isspace (rev t)"
  have "takeWhile isspace (rev t) @ u = rev t"
    unfolding u_def by (rule takeWhile_dropWhile_id)
  then have "rev (takeWhile isspace (rev t) @ u) = rev (rev t)" by (rule arg_cong)
  then have t: "t = rev u @ rev (takeWhile isspace (rev t))"
    by (simp only: rev_append rev_rev_ident)
  have "takeWhile isspace s @ t = s" unfolding t_def by (rule takeWhile_dropWhile_id)
  with t have "s = takeWhile isspace s @ rev u @ rev (takeWhile isspace (rev t))" by simp
  moreover have "strip s = rev u" by (simp only: strip_def t_def u_def)
  ultimately have "s = takeWhile isspace s @ strip s @ rev (takeWhile isspace (rev t))" by simp
  moreover have "list_all isspace (takeWhile isspace s)" by (rule all_takeWhile)
  moreover have "list_all isspace (rev (takeWhile isspace (rev t)))"
    by (simp only: list_all_rev all_takeWhile)
  ultimately show ?thesis by blast
qed

lemma dropWhile_Nil_all: "(dropWhile P xs = []) = (\<forall>x\<in>set xs. P x)"
  by (induction xs) auto

lemma strip_empty_iff: "(strip s = []) = list_all isspace s"
proof
  assume "strip s = []"
  then have "dropWhile isspace (rev (dropWhile isspace s)) = []"
    by (simp add: strip_def)
  then have "\<forall>x\<in>set (rev (dropWhile isspace s)). isspace x"
    by (simp only: dropWhile_Nil_all)
  then have "\<forall>x\<in>set (dropWhile isspace s). isspace x" by (simp only: set_rev)
  then have "dropWhile isspace (dropWhile isspace s) = []"
    by (simp only: dropWhile_Nil_all)
  then have "dropWhile isspace s = []" by (simp only: dropWhile_idem)
  then have "\<forall>x\<in>set s. isspace x" by (simp only: dropWhile_Nil_all)
  then show "list_all isspace s" by (simp only: list_all_iff)
next
  assume "list_all isspace s"
  then have "\<forall>x\<in>set s. isspace x" by (simp only: list_all_iff)
  then have "dropWhile isspace s = []" by (simp only: dropWhile_Nil_all)
  then show "strip s = []" by (simp only: strip_def rev.simps dropWhile.simps)
qed

section \<open>The store: auxiliary facts\<close>

lemma next_id_greater: "x \<in> set ids \<Longrightarrow> x < next_id ids"
proof (cases ids)
  case Nil
  assume "x \<in> set ids"
  with Nil show ?thesis by simp
next
  case (Cons y ys)
  assume "x \<in> set ids"
  then have "x \<le> Max (set (y # ys))" using Cons by (simp only: Max_ge List.finite_set)
  also have "Max (set (y # ys)) = fold max ys y" by (rule Max.set_eq_fold)
  finally show ?thesis using Cons by (simp add: next_id_def)
qed

lemma next_id_fresh: "next_id ids \<notin> set ids"
proof
  assume "next_id ids \<in> set ids"
  then have "next_id ids < next_id ids" by (rule next_id_greater)
  then show False by simp
qed

lemma new_options_ids:
  "x \<in> set (new_options pid k ts) \<Longrightarrow> k \<le> id_option x \<and> poll_id x = pid \<and> votes x = 0"
proof (induction ts arbitrary: k)
  case Nil
  then show ?case by simp
next
  case (Cons t ts)
  from Cons.prems consider
      "x = \<lparr>id_option = k, text_option = t, votes = 0, poll_id = pid\<rparr>"
    | "x \<in> set (new_options pid (k + 1) ts)" by auto
  then show ?case
  proof cases
    case 1
    then show ?thesis by simp
  next
    case 2
    from Cons.IH [OF 2] show ?thesis by simp
  qed
qed

lemma new_options_distinct: "distinct (map id_option (new_options pid k ts))"
proof (induction ts arbitrary: k)
  case Nil
  show ?case by simp
next
  case (Cons t ts)
  have "k \<notin> id_option ` set (new_options pid (k + 1) ts)"
  proof
    assume "k \<in> id_option ` set (new_options pid (k + 1) ts)"
    then obtain x where "x \<in> set (new_options pid (k + 1) ts)" "id_option x = k" by auto
    with new_options_ids [of x pid "k + 1" ts] show False by simp
  qed
  with Cons show ?case by simp
qed

lemma new_options_text: "map text_option (new_options pid k ts) = ts"
  by (induction ts arbitrary: k) simp_all

lemma new_options_length: "length (new_options pid k ts) = length ts"
  by (induction ts arbitrary: k) simp_all

lemma find_append_fresh:
  "k \<notin> key ` set xs \<Longrightarrow> key p = k \<Longrightarrow> find (\<lambda>x. key x = k) (xs @ [p]) = Some p"
  by (induction xs) auto

lemma find_append_old: "find P xs = Some x \<Longrightarrow> find P (xs @ ys) = Some x"
  by (induction xs) (auto split: if_splits)

lemma find_map_other:
  "find (\<lambda>x. key x = j) (map (\<lambda>x. if key x = k then f x else x) xs) = find (\<lambda>x. key x = j) xs"
  if "j \<noteq> k" "\<And>x. key (f x) = key x"
  using that by (induction xs) auto

lemma find_map_same:
  "find (\<lambda>x. key x = k) xs = Some y \<Longrightarrow> (\<And>x. key (f x) = key x)
     \<Longrightarrow> find (\<lambda>x. key x = k) (map (\<lambda>x. if key x = k then f x else x) xs) = Some (f y)"
  by (induction xs) (auto split: if_splits)

lemma find_key: "find (\<lambda>x. key x = k) xs = Some y \<Longrightarrow> key y = k \<and> y \<in> set xs"
  by (induction xs) (auto split: if_splits)

lemma find_index:
  assumes "find (\<lambda>x. key x = k) xs = Some y"
  shows "\<exists>i<length xs. xs ! i = y"
proof -
  from assms have "y \<in> set xs" by (rule find_key [THEN conjunct2])
  then obtain i where "i < length xs" "xs ! i = y" by (auto simp: in_set_conv_nth)
  then show ?thesis by auto
qed

lemma map_id_other: "k \<notin> key ` set xs \<Longrightarrow> map (\<lambda>x. if key x = k then f x else x) xs = xs"
  by (induction xs) auto

lemma map_update_distinct:
  "distinct (map key xs) \<Longrightarrow> i < length xs \<Longrightarrow> key (xs ! i) = k
     \<Longrightarrow> map (\<lambda>x. if key x = k then f x else x) xs = xs[i := f (xs ! i)]"
proof (induction xs arbitrary: i)
  case Nil
  then show ?case by simp
next
  case (Cons x xs)
  show ?case
  proof (cases i)
    case 0
    with Cons.prems have kx: "key x = k" and nk: "k \<notin> key ` set xs" by auto
    from nk have "map (\<lambda>x. if key x = k then f x else x) xs = xs" by (rule map_id_other)
    with 0 kx show ?thesis by simp
  next
    case (Suc j)
    with Cons.prems have j: "j < length xs" "key (xs ! j) = k" "distinct (map key xs)" by auto
    from j(1) have "xs ! j \<in> set xs" by (rule nth_mem)
    with j(2) have "k \<in> key ` set xs" by blast
    with Cons.prems have "key x \<noteq> k" by auto
    with Cons.IH [OF j(3) j(1) j(2)] Suc show ?thesis by simp
  qed
qed

lemma filter_none: "(\<And>x. x \<in> set xs \<Longrightarrow> \<not> P x) \<Longrightarrow> filter P xs = []"
  by (induction xs) auto

lemma filter_all: "(\<And>x. x \<in> set xs \<Longrightarrow> P x) \<Longrightarrow> filter P xs = xs"
  by (induction xs) auto

section \<open>The endpoints: auxiliary facts\<close>

lemma broadcast_returns: "fst (broadcast tr sched msg m) = Inr ()"
  by (simp add: broadcast_def Let_def case_prod_beta)

lemma publish_eq:
  "publish tr sched msg r a
     = (Inr r, a\<lparr>manager := fst (snd (broadcast tr sched msg (manager a)))\<rparr>,
        snd (snd (broadcast tr sched msg (manager a))))"
proof -
  obtain x m evs where b: "broadcast tr sched msg (manager a) = (x, m, evs)"
    by (cases "broadcast tr sched msg (manager a)") auto
  with broadcast_returns [of tr sched msg "manager a"] have "x = Inr ()" by simp
  with b show ?thesis by (simp add: publish_def)
qed

lemma poll_row_key: "poll_row s k = Some p \<Longrightarrow> id_poll p = k"
  unfolding poll_row_def by (rule find_key [THEN conjunct1])

lemma option_row_key: "option_row s k = Some x \<Longrightarrow> id_option x = k"
  unfolding option_row_def by (rule find_key [THEN conjunct1])

lemma get_poll_with_options_Some:
  "int64 k \<Longrightarrow> poll_row s k = Some p \<Longrightarrow> get_poll_with_options s k = Inr p"
  by (simp add: get_poll_with_options_def select_poll_def)

lemma get_poll_with_options_None:
  "int64 k \<Longrightarrow> poll_row s k = None
     \<Longrightarrow> get_poll_with_options s k = Inl (HTTPException 404 ''Poll not found'')"
  by (simp add: get_poll_with_options_def select_poll_def)

lemma get_poll_with_options_overflow:
  "\<not> int64 k \<Longrightarrow> get_poll_with_options s k = Inl (Unhandled OverflowError)"
  by (simp add: get_poll_with_options_def select_poll_def)

subsection \<open>insert_poll and commit_poll\<close>

lemma insert_poll_key: "fst (insert_poll now q d texts s) = next_id (map id_poll (polls s))"
  by (simp add: insert_poll_def Let_def)

lemma insert_poll_polls:
  "polls (snd (insert_poll now q d texts s))
     = polls s @ [\<lparr>id_poll = next_id (map id_poll (polls s)), question = q, description = d,
                   created_at = now, likes = 0\<rparr>]"
  by (simp add: insert_poll_def Let_def)

lemma insert_poll_options:
  "poll_options (snd (insert_poll now q d texts s))
     = poll_options s @ new_options (next_id (map id_poll (polls s)))
                          (next_id (map id_option (poll_options s))) texts"
  by (simp add: insert_poll_def Let_def)

lemma insert_poll_select:
  "poll_row (snd (insert_poll now q d texts s)) (next_id (map id_poll (polls s)))
     = Some \<lparr>id_poll = next_id (map id_poll (polls s)), question = q, description = d,
             created_at = now, likes = 0\<rparr>"
proof -
  have "next_id (map id_poll (polls s)) \<notin> id_poll ` set (polls s)"
    using next_id_fresh [of "map id_poll (polls s)"] by simp
  then show ?thesis
    unfolding poll_row_def insert_poll_polls by (rule find_append_fresh) simp
qed

lemma insert_poll_options_of:
  assumes "store_wf s"
  shows "options_of (snd (insert_poll now q d texts s))
           \<lparr>id_poll = next_id (map id_poll (polls s)), question = q, description = d,
            created_at = now, likes = 0\<rparr>
         = new_options (next_id (map id_poll (polls s)))
             (next_id (map id_option (poll_options s))) texts"
proof -
  let ?k = "next_id (map id_poll (polls s))"
  have old: "filter (\<lambda>x. poll_id x = ?k) (poll_options s) = []"
  proof (rule filter_none)
    fix x assume "x \<in> set (poll_options s)"
    then have "poll_id x \<in> set (map id_poll (polls s))"
      using assms by (auto simp: store_wf_def)
    then show "poll_id x \<noteq> ?k" using next_id_fresh [of "map id_poll (polls s)"] by auto
  qed
  have new: "filter (\<lambda>x. poll_id x = ?k)
               (new_options ?k (next_id (map id_option (poll_options s))) texts)
             = new_options ?k (next_id (map id_option (poll_options s))) texts"
    by (rule filter_all) (simp add: new_options_ids)
  show ?thesis by (simp add: options_of_def insert_poll_options old new)
qed

lemma insert_poll_wf:
  assumes "store_wf s"
  shows "store_wf (snd (insert_poll now q d texts s))"
proof -
  let ?k = "next_id (map id_poll (polls s))"
  let ?j = "next_id (map id_option (poll_options s))"
  have a: "distinct (map id_poll (polls s @ [\<lparr>id_poll = ?k, question = q, description = d,
                   created_at = now, likes = 0\<rparr>]))"
    using assms next_id_fresh [of "map id_poll (polls s)"] by (simp add: store_wf_def)
  have "id_option ` set (poll_options s) \<inter> id_option ` set (new_options ?k ?j texts) = {}"
  proof -
    { fix x y assume x: "x \<in> set (poll_options s)" and y: "y \<in> set (new_options ?k ?j texts)"
      from x have "id_option x < ?j" by (intro next_id_greater) simp
      moreover from y have "?j \<le> id_option y" by (simp add: new_options_ids)
      ultimately have "id_option x \<noteq> id_option y" by simp }
    then show ?thesis by auto
  qed
  then have b: "distinct (map id_option (poll_options s @ new_options ?k ?j texts))"
    using assms by (simp add: store_wf_def new_options_distinct)
  have c: "set (map poll_id (poll_options s @ new_options ?k ?j texts))
             \<subseteq> set (map id_poll (polls s @ [\<lparr>id_poll = ?k, question = q, description = d,
                   created_at = now, likes = 0\<rparr>]))"
    using assms by (auto simp: store_wf_def new_options_ids)
  from a b c show ?thesis
    unfolding store_wf_def insert_poll_polls insert_poll_options by simp
qed

lemma commit_poll_refuses_text:
  "\<not> storable q d texts \<Longrightarrow> commit_poll now q d texts s = Inl UnicodeEncodeError"
  by (simp add: commit_poll_def)

lemma commit_poll_inserts:
  "storable q d texts \<Longrightarrow> has_room s texts
     \<Longrightarrow> commit_poll now q d texts s
         = Inr (next_id (map id_poll (polls s)), snd (insert_poll now q d texts s))"
  using insert_poll_key [of now q d texts s]
  by (cases "insert_poll now q d texts s") (simp add: commit_poll_def)

lemma commit_poll_Inr:
  assumes "commit_poll now q d texts s = Inr (k, s')"
  shows "storable q d texts" and "has_room s texts"
    and "k = next_id (map id_poll (polls s))" and "s' = snd (insert_poll now q d texts s)"
proof -
  from assms show st: "storable q d texts" by (simp add: commit_poll_def split: if_splits)
  from assms show hr: "has_room s texts" by (simp add: commit_poll_def split: if_splits)
  from assms commit_poll_inserts [OF st hr, of now]
  show "k = next_id (map id_poll (polls s))" and "s' = snd (insert_poll now q d texts s)"
    by simp_all
qed

lemma commit_poll_cases:
  obtains (bad_text) "commit_poll now q d texts s = Inl UnicodeEncodeError"
  | (no_room) "commit_poll now q d texts s = Inl OperationalError"
  | (inserts) "storable q d texts" "has_room s texts"
      "commit_poll now q d texts s
         = Inr (next_id (map id_poll (polls s)), snd (insert_poll now q d texts s))"
proof (cases "storable q d texts")
  case False
  then show ?thesis using bad_text by (simp add: commit_poll_def)
next
  case True
  show ?thesis
  proof (cases "has_room s texts")
    case False
    with True show ?thesis using no_room by (simp add: commit_poll_def)
  next
    case hr: True
    from commit_poll_inserts [OF True hr] True hr show ?thesis using inserts by blast
  qed
qed

lemma has_room_key: "has_room s texts \<Longrightarrow> int64 (next_id (map id_poll (polls s)))"
  by (simp add: has_room_def)

subsection \<open>create_poll\<close>

lemma create_poll_rejects:
  assumes "length (map strip (filter (\<lambda>option. strip option \<noteq> []) (options_create payload))) < 2"
  shows "create_poll tr sched now payload a
           = (Inl (HTTPException 400 ''A poll requires at least two options.''), a, [])"
  using assms by (simp add: create_poll_def Let_def)

lemma create_poll_raises:
  assumes "\<not> length (map strip (filter (\<lambda>option. strip option \<noteq> []) (options_create payload))) < 2"
    and "commit_poll now (strip (question_create payload)) (description_create payload)
           (map strip (filter (\<lambda>option. strip option \<noteq> []) (options_create payload))) (db a)
         = Inl e"
  shows "create_poll tr sched now payload a = (Inl (Unhandled e), a, [])"
  using assms by (simp add: create_poll_def Let_def)

lemma create_poll_accepts:
  assumes "\<not> length (map strip (filter (\<lambda>option. strip option \<noteq> []) (options_create payload))) < 2"
    and "storable (strip (question_create payload)) (description_create payload)
           (map strip (filter (\<lambda>option. strip option \<noteq> []) (options_create payload)))"
    and "has_room (db a)
           (map strip (filter (\<lambda>option. strip option \<noteq> []) (options_create payload)))"
  shows "create_poll tr sched now payload a
           = publish tr sched
               (Poll_created (serialize_poll
                 (snd (insert_poll now (strip (question_create payload)) (description_create payload)
                   (map strip (filter (\<lambda>option. strip option \<noteq> []) (options_create payload))) (db a)))
                 \<lparr>id_poll = next_id (map id_poll (polls (db a))),
                  question = strip (question_create payload),
                  description = description_create payload, created_at = now, likes = 0\<rparr>))
               (serialize_poll
                 (snd (insert_poll now (strip (question_create payload)) (description_create payload)
                   (map strip (filter (\<lambda>option. strip option \<noteq> []) (options_create payload))) (db a)))
                 \<lparr>id_poll = next_id (map id_poll (polls (db a))),
                  question = strip (question_create payload),
                  description = description_create payload, created_at = now, likes = 0\<rparr>)
               (a\<lparr>db := snd (insert_poll now (strip (question_create payload))
                   (description_create payload)
                   (map strip (filter (\<lambda>option. strip option \<noteq> []) (options_create payload)))
                   (db a))\<rparr>)"
proof -
  let ?opts = "map strip (filter (\<lambda>option. strip option \<noteq> []) (options_create payload))"
  let ?k = "next_id (map id_poll (polls (db a)))"
  let ?s = "snd (insert_poll now (strip (question_create payload)) (description_create payload)
              ?opts (db a))"
  have c: "commit_poll now (strip (question_create payload)) (description_create payload)
             ?opts (db a) = Inr (?k, ?s)"
    using assms(2,3) by (rule commit_poll_inserts)
  have g: "get_poll_with_options ?s ?k
             = Inr \<lparr>id_poll = ?k, question = strip (question_create payload),
                  description = description_create payload, created_at = now, likes = 0\<rparr>"
    by (rule get_poll_with_options_Some [OF has_room_key [OF assms(3)] insert_poll_select])
  have "create_poll tr sched now payload a
          = (case get_poll_with_options ?s ?k of
               Inl e \<Rightarrow> (Inl e, a\<lparr>db := ?s\<rparr>, [])
             | Inr p \<Rightarrow>
                 publish tr sched (Poll_created (serialize_poll ?s p))
                   (serialize_poll ?s p) (a\<lparr>db := ?s\<rparr>))"
    using assms(1) by (simp add: create_poll_def Let_def c)
  also have "\<dots> = publish tr sched
               (Poll_created (serialize_poll ?s
                 \<lparr>id_poll = ?k, question = strip (question_create payload),
                  description = description_create payload, created_at = now, likes = 0\<rparr>))
               (serialize_poll ?s
                 \<lparr>id_poll = ?k, question = strip (question_create payload),
                  description = description_create payload, created_at = now, likes = 0\<rparr>)
               (a\<lparr>db := ?s\<rparr>)"
    by (simp only: g sum.case)
  finally show ?thesis .
qed

lemma serialize_new_options_text:
  "map text_option_read (map serialize_option xs) = map text_option xs"
  by (simp add: serialize_option_def)

lemma serialize_new_options_votes:
  "list_all (\<lambda>x. votes_read x = 0) (map serialize_option (new_options pid k ts))"
  by (induction ts arbitrary: k) (simp_all add: serialize_option_def)

lemma create_poll_Inr:
  assumes "create_poll tr sched now payload a = (Inr r, a', evs)"
  shows "\<not> length (map strip (filter (\<lambda>option. strip option \<noteq> []) (options_create payload))) < 2"
    and "storable (strip (question_create payload)) (description_create payload)
           (map strip (filter (\<lambda>option. strip option \<noteq> []) (options_create payload)))"
    and "has_room (db a)
           (map strip (filter (\<lambda>option. strip option \<noteq> []) (options_create payload)))"
proof -
  let ?opts = "map strip (filter (\<lambda>option. strip option \<noteq> []) (options_create payload))"
  show len: "\<not> length ?opts < 2"
  proof
    assume "length ?opts < 2"
    then have "create_poll tr sched now payload a
           = (Inl (HTTPException 400 ''A poll requires at least two options.''), a, [])"
      by (rule create_poll_rejects)
    with assms show False by simp
  qed
  have "storable (strip (question_create payload)) (description_create payload) ?opts
          \<and> has_room (db a) ?opts"
  proof (cases rule: commit_poll_cases [where now = now and q = "strip (question_create payload)"
        and d = "description_create payload" and texts = ?opts and s = "db a"])
    case bad_text
    from assms show ?thesis unfolding create_poll_raises [OF len bad_text] by simp
  next
    case no_room
    from assms show ?thesis unfolding create_poll_raises [OF len no_room] by simp
  next
    case inserts
    then show ?thesis by simp
  qed
  then show "storable (strip (question_create payload)) (description_create payload) ?opts"
    and "has_room (db a) ?opts" by simp_all
qed

section \<open>The endpoints: claims\<close>

text \<open>
  Claim C6, as the code has it. \<open>create_poll\<close> trims each option text and drops those
  that are empty after trimming. With fewer than two left it fails with the 400 exception,
  the application state is unchanged (nothing is persisted) and nothing is broadcast. With
  two or more, the commit decides. When the trimmed question, the description or one of the
  remaining option texts cannot be encoded, the commit raises \<open>UnicodeEncodeError\<close>, which
  leaves the handler unhandled; again nothing is persisted and nothing is broadcast. When
  they can all be encoded, on a well-formed store that has keys left, \<open>create_poll\<close>
  succeeds: the question of the created poll is the trimmed question, its options are
  exactly the remaining texts, in order, each with zero votes, its likes are zero, and the
  poll is persisted (\<open>get_poll\<close> returns it).
\<close>

theorem create_poll_validates_options:
  "(length (map strip (filter (\<lambda>option. strip option \<noteq> []) (options_create payload))) < 2
      \<longrightarrow> create_poll tr sched now payload a
            = (Inl (HTTPException 400 ''A poll requires at least two options.''), a, []))
   \<and> (2 \<le> length (map strip (filter (\<lambda>option. strip option \<noteq> []) (options_create payload)))
        \<and> \<not> storable (strip (question_create payload)) (description_create payload)
              (map strip (filter (\<lambda>option. strip option \<noteq> []) (options_create payload)))
      \<longrightarrow> create_poll tr sched now payload a = (Inl (Unhandled UnicodeEncodeError), a, []))
   \<and> (2 \<le> length (map strip (filter (\<lambda>option. strip option \<noteq> []) (options_create payload)))
        \<and> storable (strip (question_create payload)) (description_create payload)
              (map strip (filter (\<lambda>option. strip option \<noteq> []) (options_create payload)))
        \<and> has_room (db a)
              (map strip (filter (\<lambda>option. strip option \<noteq> []) (options_create payload)))
        \<and> store_wf (db a)
      \<longrightarrow> (\<exists>r a' evs. create_poll tr sched now payload a = (Inr r, a', evs)
             \<and> question_read r = strip (question_create payload)
             \<and> map text_option_read (options_read r)
                 = map strip (filter (\<lambda>option. strip option \<noteq> []) (options_create payload))
             \<and> length (options_read r)
                 = length (map strip (filter (\<lambda>option. strip option \<noteq> []) (options_create payload)))
             \<and> list_all (\<lambda>x. votes_read x = 0) (options_read r)
             \<and> likes_read r = 0
             \<and> get_poll (id_read r) a' = Inr r))"
proof (intro conjI impI)
  assume "length (map strip (filter (\<lambda>option. strip option \<noteq> []) (options_create payload))) < 2"
  then show "create_poll tr sched now payload a
            = (Inl (HTTPException 400 ''A poll requires at least two options.''), a, [])"
    by (rule create_poll_rejects)
next
  let ?opts = "map strip (filter (\<lambda>option. strip option \<noteq> []) (options_create payload))"
  assume "2 \<le> length ?opts
    \<and> \<not> storable (strip (question_create payload)) (description_create payload) ?opts"
  then have len: "\<not> length ?opts < 2"
    and ns: "\<not> storable (strip (question_create payload)) (description_create payload) ?opts"
    by simp_all
  show "create_poll tr sched now payload a = (Inl (Unhandled UnicodeEncodeError), a, [])"
    by (rule create_poll_raises [OF len commit_poll_refuses_text [OF ns]])
next
  let ?opts = "map strip (filter (\<lambda>option. strip option \<noteq> []) (options_create payload))"
  let ?q = "strip (question_create payload)"
  let ?k = "next_id (map id_poll (polls (db a)))"
  let ?p = "\<lparr>id_poll = ?k, question = ?q, description = description_create payload,
            created_at = now, likes = 0\<rparr>"
  let ?s = "snd (insert_poll now ?q (description_create payload) ?opts (db a))"
  let ?r = "serialize_poll ?s ?p"
  let ?b = "broadcast tr sched (Poll_created ?r) (manager (a\<lparr>db := ?s\<rparr>))"
  assume "2 \<le> length ?opts \<and> storable ?q (description_create payload) ?opts
    \<and> has_room (db a) ?opts \<and> store_wf (db a)"
  then have len: "\<not> length ?opts < 2" and st: "storable ?q (description_create payload) ?opts"
    and hr: "has_room (db a) ?opts" and wf: "store_wf (db a)" by simp_all
  have res: "create_poll tr sched now payload a
               = (Inr ?r, a\<lparr>db := ?s\<rparr>\<lparr>manager := fst (snd ?b)\<rparr>, snd (snd ?b))"
    by (simp only: create_poll_accepts [OF len st hr] publish_eq)
  have opts: "options_read ?r
                = map serialize_option
                    (new_options ?k (next_id (map id_option (poll_options (db a)))) ?opts)"
    by (simp add: serialize_poll_def insert_poll_options_of [OF wf])
  have t: "map text_option_read (options_read ?r) = ?opts"
    by (simp only: opts serialize_new_options_text new_options_text)
  have l: "length (options_read ?r) = length ?opts"
    by (simp only: opts length_map new_options_length)
  have v: "list_all (\<lambda>x. votes_read x = 0) (options_read ?r)"
    by (simp only: opts serialize_new_options_votes)
  have q: "question_read ?r = ?q" and k: "likes_read ?r = 0" and i: "id_read ?r = ?k"
    by (simp_all add: serialize_poll_def)
  have g: "get_poll (id_read ?r) (a\<lparr>db := ?s\<rparr>\<lparr>manager := fst (snd ?b)\<rparr>) = Inr ?r"
    by (simp add: get_poll_def i
        get_poll_with_options_Some [OF has_room_key [OF hr] insert_poll_select])
  from res q t l v k g
  show "\<exists>r a' evs. create_poll tr sched now payload a = (Inr r, a', evs)
             \<and> question_read r = strip (question_create payload)
             \<and> map text_option_read (options_read r) = ?opts
             \<and> length (options_read r) = length ?opts
             \<and> list_all (\<lambda>x. votes_read x = 0) (options_read r)
             \<and> likes_read r = 0
             \<and> get_poll (id_read r) a' = Inr r"
    by blast
qed

text \<open>
  Claim C9, as the code has it. After a successful \<open>create_poll\<close> the stored question is
  the trimmed text of the submitted question: it has no leading and no trailing whitespace.
  It is empty exactly when the submitted question consists of whitespace only (or is empty):
  the code does not check the question.
\<close>

theorem create_poll_stores_trimmed_question:
  assumes "create_poll tr sched now payload a = (Inr r, a', evs)"
  shows "question_read r = strip (question_create payload)
     \<and> (\<exists>p. select_poll (db a') (id_read r) = Inr (Some p)
            \<and> question p = strip (question_create payload)
            \<and> (question p = []
                 \<or> (\<not> isspace (hd (question p)) \<and> \<not> isspace (last (question p))))
            \<and> ((question p = []) = list_all isspace (question_create payload)))"
proof -
  let ?opts = "map strip (filter (\<lambda>option. strip option \<noteq> []) (options_create payload))"
  let ?q = "strip (question_create payload)"
  let ?k = "next_id (map id_poll (polls (db a)))"
  let ?p = "\<lparr>id_poll = ?k, question = ?q, description = description_create payload,
            created_at = now, likes = 0\<rparr>"
  let ?s = "snd (insert_poll now ?q (description_create payload) ?opts (db a))"
  let ?r = "serialize_poll ?s ?p"
  let ?b = "broadcast tr sched (Poll_created ?r) (manager (a\<lparr>db := ?s\<rparr>))"
  note ok = create_poll_Inr [OF assms]
  have res: "create_poll tr sched now payload a
               = (Inr ?r, a\<lparr>db := ?s\<rparr>\<lparr>manager := fst (snd ?b)\<rparr>, snd (snd ?b))"
    by (simp only: create_poll_accepts [OF ok] publish_eq)
  from assms [unfolded res]
  have "Inr ?r = (Inr r :: failure + poll_read)"
    and "a\<lparr>db := ?s\<rparr>\<lparr>manager := fst (snd ?b)\<rparr> = a'"
    by (simp_all only: prod.inject)
  then have r: "r = ?r" and a': "a' = a\<lparr>db := ?s\<rparr>\<lparr>manager := fst (snd ?b)\<rparr>"
    by (simp_all only: sum.inject)
  have q: "question_read r = ?q" and i: "id_read r = ?k"
    by (simp_all add: r serialize_poll_def)
  have s: "select_poll (db a') (id_read r) = Inr (Some ?p)"
    by (simp add: a' i select_poll_def has_room_key [OF ok(3)] insert_poll_select)
  have "question ?p = ?q" by simp
  moreover have "question ?p = [] \<or> (\<not> isspace (hd (question ?p)) \<and> \<not> isspace (last (question ?p)))"
    using strip_trimmed [of "question_create payload"] by simp
  moreover have "(question ?p = []) = list_all isspace (question_create payload)"
    using strip_empty_iff [of "question_create payload"] by simp
  ultimately show ?thesis using q s by blast
qed

lemmas eval_defs = create_poll_def commit_poll_def insert_poll_def storable_def has_room_def
      encodable_def int64_def Let_def strip_def isspace_def next_id_def
      get_poll_with_options_def select_poll_def poll_row_def serialize_poll_def options_of_def
      serialize_option_def publish_def broadcast_def init_app_def init_db_def init_manager_def
      get_poll_def get_option_def option_row_def store_wf_def

theorem create_poll_stores_trimmed_question_witness:
  "create_poll (\<lambda>w::nat. None) [] 5
     \<lparr>question_create = [32, 84, 101, 97, 63, 10], description_create = None,
      options_create = [[84, 101, 97], [32, 9], [32, 67, 32]]\<rparr> init_app
   = (Inr \<lparr>id_read = 1, question_read = [84, 101, 97, 63], description_read = None,
           likes_read = 0, created_at_read = 5,
           options_read = [\<lparr>id_option_read = 1, text_option_read = [84, 101, 97], votes_read = 0\<rparr>,
                           \<lparr>id_option_read = 2, text_option_read = [67], votes_read = 0\<rparr>]\<rparr>,
      \<lparr>db = \<lparr>polls = [\<lparr>id_poll = 1, question = [84, 101, 97, 63], description = None,
                         created_at = 5, likes = 0\<rparr>],
             poll_options = [\<lparr>id_option = 1, text_option = [84, 101, 97], votes = 0, poll_id = 1\<rparr>,
                             \<lparr>id_option = 2, text_option = [67], votes = 0, poll_id = 1\<rparr>]\<rparr>,
        manager = \<lparr>connections = []\<rparr>\<rparr>,
      [])
   \<and> strip [32, 84, 101, 97, 63, 10] = [84, 101, 97, 63]"
proof -
  have h: "create_poll (\<lambda>w::nat. None) [] 5
     \<lparr>question_create = [32, 84, 101, 97, 63, 10], description_create = None,
      options_create = [[84, 101, 97], [32, 9], [32, 67, 32]]\<rparr> init_app
   = (Inr \<lparr>id_read = 1, question_read = [84, 101, 97, 63], description_read = None,
           likes_read = 0, created_at_read = 5,
           options_read = [\<lparr>id_option_read = 1, text_option_read = [84, 101, 97], votes_read = 0\<rparr>,
                           \<lparr>id_option_read = 2, text_option_read = [67], votes_read = 0\<rparr>]\<rparr>,
      \<lparr>db = \<lparr>polls = [\<lparr>id_poll = 1, question = [84, 101, 97, 63], description = None,
                         created_at = 5, likes = 0\<rparr>],
             poll_options = [\<lparr>id_option = 1, text_option = [84, 101, 97], votes = 0, poll_id = 1\<rparr>,
                             \<lparr>id_option = 2, text_option = [67], votes = 0, poll_id = 1\<rparr>]\<rparr>,
        manager = \<lparr>connections = []\<rparr>\<rparr>,
      [])"
    by (simp add: eval_defs)
  from create_poll_stores_trimmed_question [OF h]
  have "[84, 101, 97, 63] = strip (question_create
     \<lparr>question_create = [32, 84, 101, 97, 63, 10], description_create = None,
      options_create = [[84, 101, 97], [32, 9], [32, 67, 32]]\<rparr>)"
    by simp
  then have "strip [32, 84, 101, 97, 63, 10] = [84, 101, 97, 63]" by simp
  with h show ?thesis by (rule conjI)
qed

text \<open>
  Against C9 as stated: a poll whose question is two spaces is created, and its stored
  question is the empty string.
\<close>

theorem empty_question_counterexample:
  "create_poll (\<lambda>w::nat. None) [] 5
     \<lparr>question_create = [32, 32], description_create = None,
      options_create = [[97], [98]]\<rparr> init_app
   = (Inr \<lparr>id_read = 1, question_read = [], description_read = None,
           likes_read = 0, created_at_read = 5,
           options_read = [\<lparr>id_option_read = 1, text_option_read = [97], votes_read = 0\<rparr>,
                           \<lparr>id_option_read = 2, text_option_read = [98], votes_read = 0\<rparr>]\<rparr>,
      \<lparr>db = \<lparr>polls = [\<lparr>id_poll = 1, question = [], description = None,
                         created_at = 5, likes = 0\<rparr>],
             poll_options = [\<lparr>id_option = 1, text_option = [97], votes = 0, poll_id = 1\<rparr>,
                             \<lparr>id_option = 2, text_option = [98], votes = 0, poll_id = 1\<rparr>]\<rparr>,
        manager = \<lparr>connections = []\<rparr>\<rparr>,
      [])"
  by (simp add: eval_defs)

theorem create_poll_validates_options_witness:
  "length (map strip (filter (\<lambda>option. strip option \<noteq> [])
      (options_create \<lparr>question_create = [81], description_create = None,
                       options_create = [[84, 101, 97], [32, 9]]\<rparr>))) < 2
   \<and> create_poll (\<lambda>w::nat. None) [] 5
        \<lparr>question_create = [81], description_create = None,
         options_create = [[84, 101, 97], [32, 9]]\<rparr> init_app
      = (Inl (HTTPException 400 ''A poll requires at least two options.''), init_app, [])
   \<and> (2 \<le> length (map strip (filter (\<lambda>option. strip option \<noteq> [])
          (options_create \<lparr>question_create = [81], description_create = Some [56000],
                           options_create = [[84], [67]]\<rparr>)))
        \<and> \<not> storable (strip (question_create \<lparr>question_create = [81],
                 description_create = Some [56000], options_create = [[84], [67]]\<rparr>))
              (description_create \<lparr>question_create = [81],
                 description_create = Some [56000], options_create = [[84], [67]]\<rparr>)
              (map strip (filter (\<lambda>option. strip option \<noteq> [])
                (options_create \<lparr>question_create = [81], description_create = Some [56000],
                                 options_create = [[84], [67]]\<rparr>))))
   \<and> create_poll (\<lambda>w::nat. None) [] 5
        \<lparr>question_create = [81], description_create = Some [56000],
         options_create = [[84], [67]]\<rparr> init_app
      = (Inl (Unhandled UnicodeEncodeError), init_app, [])
   \<and> (2 \<le> length (map strip (filter (\<lambda>option. strip option \<noteq> [])
          (options_create \<lparr>question_create = [81], description_create = None,
                           options_create = [[84, 101, 97], [32, 9], [32, 67, 32]]\<rparr>)))
        \<and> storable (strip (question_create \<lparr>question_create = [81],
                 description_create = None,
                 options_create = [[84, 101, 97], [32, 9], [32, 67, 32]]\<rparr>))
              (description_create \<lparr>question_create = [81], description_create = None,
                 options_create = [[84, 101, 97], [32, 9], [32, 67, 32]]\<rparr>)
              (map strip (filter (\<lambda>option. strip option \<noteq> [])
                (options_create \<lparr>question_create = [81], description_create = None,
                                 options_create = [[84, 101, 97], [32, 9], [32, 67, 32]]\<rparr>)))
        \<and> has_room (db (init_app :: nat app))
              (map strip (filter (\<lambda>option. strip option \<noteq> [])
                (options_create \<lparr>question_create = [81], description_create = None,
                                 options_create = [[84, 101, 97], [32, 9], [32, 67, 32]]\<rparr>)))
        \<and> store_wf (db (init_app :: nat app)))
   \<and> fst (create_poll (\<lambda>w::nat. None) [] 5
        \<lparr>question_create = [81], description_create = None,
         options_create = [[84, 101, 97], [32, 9], [32, 67, 32]]\<rparr> init_app)
      = Inr \<lparr>id_read = 1, question_read = [81], description_read = None,
             likes_read = 0, created_at_read = 5,
             options_read = [\<lparr>id_option_read = 1, text_option_read = [84, 101, 97], votes_read = 0\<rparr>,
                             \<lparr>id_option_read = 2, text_option_read = [67], votes_read = 0\<rparr>]\<rparr>"
proof -
  have h1: "length (map strip (filter (\<lambda>option. strip option \<noteq> [])
      (options_create \<lparr>question_create = [81], description_create = None,
                       options_create = [[84, 101, 97], [32, 9]]\<rparr>))) < 2"
    by (simp add: strip_def isspace_def)
  have h2: "2 \<le> length (map strip (filter (\<lambda>option. strip option \<noteq> [])
          (options_create \<lparr>question_create = [81], description_create = Some [56000],
                           options_create = [[84], [67]]\<rparr>)))
        \<and> \<not> storable (strip (question_create \<lparr>question_create = [81],
                 description_create = Some [56000], options_create = [[84], [67]]\<rparr>))
              (description_create \<lparr>question_create = [81],
                 description_create = Some [56000], options_create = [[84], [67]]\<rparr>)
              (map strip (filter (\<lambda>option. strip option \<noteq> [])
                (options_create \<lparr>question_create = [81], description_create = Some [56000],
                                 options_create = [[84], [67]]\<rparr>)))"
    by (simp add: strip_def isspace_def storable_def encodable_def)
  have h3: "2 \<le> length (map strip (filter (\<lambda>option. strip option \<noteq> [])
          (options_create \<lparr>question_create = [81], description_create = None,
                           options_create = [[84, 101, 97], [32, 9], [32, 67, 32]]\<rparr>)))
        \<and> storable (strip (question_create \<lparr>question_create = [81],
                 description_create = None,
                 options_create = [[84, 101, 97], [32, 9], [32, 67, 32]]\<rparr>))
              (description_create \<lparr>question_create = [81], description_create = None,
                 options_create = [[84, 101, 97], [32, 9], [32, 67, 32]]\<rparr>)
              (map strip (filter (\<lambda>option. strip option \<noteq> [])
                (options_create \<lparr>question_create = [81], description_create = None,
                                 options_create = [[84, 101, 97], [32, 9], [32, 67, 32]]\<rparr>)))
        \<and> has_room (db (init_app :: nat app))
              (map strip (filter (\<lambda>option. strip option \<noteq> [])
                (options_create \<lparr>question_create = [81], description_create = None,
                                 options_create = [[84, 101, 97], [32, 9], [32, 67, 32]]\<rparr>)))
        \<and> store_wf (db (init_app :: nat app))"
    by (simp add: strip_def isspace_def storable_def encodable_def has_room_def int64_def
        next_id_def store_wf_def init_app_def init_db_def)
  note t1 = create_poll_validates_options [THEN conjunct1, THEN mp, OF h1]
  note t2 = create_poll_validates_options [THEN conjunct2, THEN conjunct1, THEN mp, OF h2]
  note t3 = create_poll_validates_options [THEN conjunct2, THEN conjunct2, THEN mp, OF h3]
  have c3: "fst (create_poll (\<lambda>w::nat. None) [] 5
        \<lparr>question_create = [81], description_create = None,
         options_create = [[84, 101, 97], [32, 9], [32, 67, 32]]\<rparr> init_app)
      = Inr \<lparr>id_read = 1, question_read = [81], description_read = None,
             likes_read = 0, created_at_read = 5,
             options_read = [\<lparr>id_option_read = 1, text_option_read = [84, 101, 97], votes_read = 0\<rparr>,
                             \<lparr>id_option_read = 2, text_option_read = [67], votes_read = 0\<rparr>]\<rparr>"
    using t3 [of "\<lambda>w::nat. None" "[]" 5] by (simp add: eval_defs)
  show ?thesis
    by (rule conjI [OF h1 conjI [OF t1 conjI [OF h2 conjI [OF t2 conjI [OF h3 c3]]]]])
qed

text \<open>
  Against C6 as stated: a poll with two non-empty options, one of them a lone surrogate,
  is not created: the commit raises and the store is as it was.
\<close>

theorem unencodable_option_counterexample:
  "create_poll (\<lambda>w::nat. None) [] 5
     \<lparr>question_create = [81], description_create = None,
      options_create = [[84], [55296]]\<rparr> init_app
   = (Inl (Unhandled UnicodeEncodeError), init_app, [])
   \<and> length (map strip (filter (\<lambda>option. strip option \<noteq> []) [[84], [55296]])) = 2"
  by (simp add: eval_defs)

subsection \<open>Votes and likes\<close>

lemma distinct_key_eq:
  "distinct (map key xs) \<Longrightarrow> x \<in> set xs \<Longrightarrow> y \<in> set xs \<Longrightarrow> key x = key y \<Longrightarrow> x = y"
  by (meson distinct_map inj_onD)

lemma update_votes_polls: "polls (update_votes x s) = polls s"
  by (simp add: update_votes_def)

lemma update_votes_select: "poll_row (update_votes x s) k = poll_row s k"
  by (simp add: poll_row_def update_votes_polls)

lemma update_votes_get:
  assumes "option_row s j = Some x"
  shows "option_row (update_votes x s) j = Some (x\<lparr>votes := votes x + 1\<rparr>)"
proof -
  have j: "id_option x = j" using assms by (rule option_row_key)
  have "find (\<lambda>y. id_option y = j)
          (map (\<lambda>y. if id_option y = j then (\<lambda>z. z\<lparr>votes := votes x + 1\<rparr>) y else y) (poll_options s))
        = Some ((\<lambda>z. z\<lparr>votes := votes x + 1\<rparr>) x)"
    by (rule find_map_same) (use assms in \<open>simp_all add: option_row_def\<close>)
  then show ?thesis by (simp add: option_row_def update_votes_def j)
qed

lemma update_votes_get_other:
  assumes "j \<noteq> id_option x"
  shows "option_row (update_votes x s) j = option_row s j"
proof -
  have "find (\<lambda>y. id_option y = j)
          (map (\<lambda>y. if id_option y = id_option x then (\<lambda>z. z\<lparr>votes := votes x + 1\<rparr>) y else y)
             (poll_options s))
        = find (\<lambda>y. id_option y = j) (poll_options s)"
    by (rule find_map_other) (use assms in simp_all)
  then show ?thesis by (simp add: option_row_def update_votes_def)
qed

lemma update_votes_update:
  assumes "store_wf s" and "option_row s j = Some x"
  shows "\<exists>i<length (poll_options s). poll_options s ! i = x
           \<and> poll_options (update_votes x s) = (poll_options s)[i := x\<lparr>votes := votes x + 1\<rparr>]"
proof -
  from assms(2) obtain i where i: "i < length (poll_options s)" "poll_options s ! i = x"
    unfolding option_row_def by (blast dest: find_index)
  have d: "distinct (map id_option (poll_options s))" using assms(1) by (simp add: store_wf_def)
  have "map (\<lambda>y. if id_option y = id_option x then (\<lambda>z. z\<lparr>votes := votes x + 1\<rparr>) y else y)
          (poll_options s)
        = (poll_options s)[i := (\<lambda>z. z\<lparr>votes := votes x + 1\<rparr>) (poll_options s ! i)]"
    using d i(1) by (rule map_update_distinct) (simp add: i(2))
  then have "poll_options (update_votes x s) = (poll_options s)[i := x\<lparr>votes := votes x + 1\<rparr>]"
    by (simp add: update_votes_def i(2))
  with i show ?thesis by blast
qed

lemma update_votes_wf: "store_wf s \<Longrightarrow> store_wf (update_votes x s)"
proof -
  assume wf: "store_wf s"
  have a: "map id_option (poll_options (update_votes x s)) = map id_option (poll_options s)"
    by (simp add: update_votes_def) 
  have b: "map poll_id (poll_options (update_votes x s)) = map poll_id (poll_options s)"
    by (simp add: update_votes_def)
  from wf show ?thesis unfolding store_wf_def a b update_votes_polls .
qed

lemma update_likes_options: "poll_options (update_likes p s) = poll_options s"
  by (simp add: update_likes_def)

lemma update_likes_select:
  assumes "poll_row s k = Some p"
  shows "poll_row (update_likes p s) k = Some (p\<lparr>likes := likes p + 1\<rparr>)"
proof -
  have k: "id_poll p = k" using assms by (rule poll_row_key)
  have "find (\<lambda>y. id_poll y = k)
          (map (\<lambda>y. if id_poll y = k then (\<lambda>z. z\<lparr>likes := likes p + 1\<rparr>) y else y) (polls s))
        = Some ((\<lambda>z. z\<lparr>likes := likes p + 1\<rparr>) p)"
    by (rule find_map_same) (use assms in \<open>simp_all add: poll_row_def\<close>)
  then show ?thesis by (simp add: poll_row_def update_likes_def k)
qed

lemma update_likes_update:
  assumes "store_wf s" and "poll_row s k = Some p"
  shows "\<exists>i<length (polls s). polls s ! i = p
           \<and> polls (update_likes p s) = (polls s)[i := p\<lparr>likes := likes p + 1\<rparr>]"
proof -
  from assms(2) obtain i where i: "i < length (polls s)" "polls s ! i = p"
    unfolding poll_row_def by (blast dest: find_index)
  have d: "distinct (map id_poll (polls s))" using assms(1) by (simp add: store_wf_def)
  have "map (\<lambda>y. if id_poll y = id_poll p then (\<lambda>z. z\<lparr>likes := likes p + 1\<rparr>) y else y) (polls s)
        = (polls s)[i := (\<lambda>z. z\<lparr>likes := likes p + 1\<rparr>) (polls s ! i)]"
    using d i(1) by (rule map_update_distinct) (simp add: i(2))
  then have "polls (update_likes p s) = (polls s)[i := p\<lparr>likes := likes p + 1\<rparr>]"
    by (simp add: update_likes_def i(2))
  with i show ?thesis by blast
qed

lemma update_likes_wf: "store_wf s \<Longrightarrow> store_wf (update_likes p s)"
proof -
  assume wf: "store_wf s"
  have a: "map id_poll (polls (update_likes p s)) = map id_poll (polls s)"
    by (simp add: update_likes_def)
  from wf show ?thesis unfolding store_wf_def a update_likes_options .
qed

subsection \<open>vote_on_poll\<close>

lemma select_poll_cases:
  obtains (overflow) "\<not> int64 k" "select_poll s k = Inl OverflowError"
  | (absent) "int64 k" "poll_row s k = None" "select_poll s k = Inr None"
  | (present) p where "int64 k" "poll_row s k = Some p" "select_poll s k = Inr (Some p)"
  by (cases "int64 k"; cases "poll_row s k") (auto simp: select_poll_def)

lemma get_option_cases:
  obtains (overflow) "\<not> int64 k" "get_option s k = Inl OverflowError"
  | (absent) "int64 k" "option_row s k = None" "get_option s k = Inr None"
  | (present) x where "int64 k" "option_row s k = Some x" "get_option s k = Inr (Some x)"
  by (cases "int64 k"; cases "option_row s k") (auto simp: get_option_def)

lemma select_poll_Some: "select_poll s k = Inr (Some p) \<Longrightarrow> int64 k \<and> poll_row s k = Some p"
  by (simp add: select_poll_def split: if_splits)

lemma get_option_Some: "get_option s k = Inr (Some x) \<Longrightarrow> int64 k \<and> option_row s k = Some x"
  by (simp add: get_option_def split: if_splits)

lemma vote_on_poll_poll_overflow:
  assumes "select_poll (db a) k = Inl e"
  shows "vote_on_poll tr sched k vote a = (Inl (Unhandled e), a, [])"
  by (simp add: vote_on_poll_def get_poll_with_options_def assms)

lemma vote_on_poll_no_poll:
  assumes "select_poll (db a) k = Inr None"
  shows "vote_on_poll tr sched k vote a = (Inl (HTTPException 404 ''Poll not found''), a, [])"
  by (simp add: vote_on_poll_def get_poll_with_options_def assms)

lemma vote_on_poll_option_overflow:
  assumes "select_poll (db a) k = Inr (Some p)" and "get_option (db a) (option_id vote) = Inl e"
  shows "vote_on_poll tr sched k vote a = (Inl (Unhandled e), a, [])"
  by (simp add: vote_on_poll_def get_poll_with_options_def assms)

lemma vote_on_poll_no_option:
  assumes "select_poll (db a) k = Inr (Some p)" and "get_option (db a) (option_id vote) = Inr None"
  shows "vote_on_poll tr sched k vote a
           = (Inl (HTTPException 400 ''Option does not belong to this poll.''), a, [])"
  by (simp add: vote_on_poll_def get_poll_with_options_def assms)

lemma vote_on_poll_other_poll:
  assumes "select_poll (db a) k = Inr (Some p)"
    and "get_option (db a) (option_id vote) = Inr (Some x)" and "poll_id x \<noteq> k"
  shows "vote_on_poll tr sched k vote a
           = (Inl (HTTPException 400 ''Option does not belong to this poll.''), a, [])"
proof -
  from assms(1) have "poll_row (db a) k = Some p" by (simp add: select_poll_Some)
  then have "id_poll p = k" by (rule poll_row_key)
  with assms(3) have "poll_id x \<noteq> id_poll p" by simp
  then show ?thesis
    by (simp add: vote_on_poll_def get_poll_with_options_def assms(1,2))
qed

lemma vote_on_poll_count_overflow:
  assumes "select_poll (db a) k = Inr (Some p)"
    and "get_option (db a) (option_id vote) = Inr (Some x)" and "poll_id x = k"
    and "\<not> int64 (votes x + 1)"
  shows "vote_on_poll tr sched k vote a = (Inl (Unhandled OverflowError), a, [])"
proof -
  from assms(1) have "poll_row (db a) k = Some p" by (simp add: select_poll_Some)
  then have "id_poll p = k" by (rule poll_row_key)
  with assms(3) have "poll_id x = id_poll p" by simp
  then show ?thesis
    by (simp add: vote_on_poll_def get_poll_with_options_def assms(1,2,4) commit_vote_def)
qed

lemma vote_on_poll_commits:
  assumes "select_poll (db a) k = Inr (Some p)"
    and "get_option (db a) (option_id vote) = Inr (Some x)" and "poll_id x = k"
    and "int64 (votes x + 1)"
  shows "vote_on_poll tr sched k vote a
           = (Inr (serialize_poll (update_votes x (db a)) p),
              a\<lparr>db := update_votes x (db a),
                manager := fst (snd (broadcast tr sched
                  (Poll_updated (serialize_poll (update_votes x (db a)) p)) (manager a)))\<rparr>,
              snd (snd (broadcast tr sched
                  (Poll_updated (serialize_poll (update_votes x (db a)) p)) (manager a))))"
proof -
  from assms(1) have i: "int64 k" and r: "poll_row (db a) k = Some p"
    by (simp_all add: select_poll_Some)
  from r have "id_poll p = k" by (rule poll_row_key)
  with assms(3) have eq: "poll_id x = id_poll p" by simp
  have g0: "get_poll_with_options (db a) k = Inr p"
    by (rule get_poll_with_options_Some [OF i r])
  have g: "get_poll_with_options (update_votes x (db a)) k = Inr p"
    by (rule get_poll_with_options_Some [OF i]) (simp only: update_votes_select r)
  show ?thesis
    by (simp add: vote_on_poll_def g0 assms(2,4) eq g commit_vote_def publish_eq)
qed

lemma vote_on_poll_cases:
  obtains
    (poll_overflow) "select_poll (db (a :: 'ws app)) k = Inl OverflowError"
  | (no_poll) "select_poll (db a) k = Inr None"
  | (option_overflow) p where "select_poll (db a) k = Inr (Some p)"
      "get_option (db a) (option_id (vote :: vote_request)) = Inl OverflowError"
  | (no_option) p where "select_poll (db a) k = Inr (Some p)"
      "get_option (db a) (option_id vote) = Inr None"
  | (other_poll) p x where "select_poll (db a) k = Inr (Some p)"
      "get_option (db a) (option_id vote) = Inr (Some x)" "poll_id x \<noteq> k"
  | (count_overflow) p x where "select_poll (db a) k = Inr (Some p)"
      "get_option (db a) (option_id vote) = Inr (Some x)" "poll_id x = k"
      "\<not> int64 (votes x + 1)"
  | (commits) p x where "select_poll (db a) k = Inr (Some p)"
      "get_option (db a) (option_id vote) = Inr (Some x)" "poll_id x = k"
      "int64 (votes x + 1)"
proof (cases rule: select_poll_cases [where s = "db a" and k = k])
  case overflow
  then show ?thesis using poll_overflow by simp
next
  case absent
  then show ?thesis using no_poll by simp
next
  case (present p)
  note p = present(3)
  show ?thesis
  proof (cases rule: get_option_cases [where s = "db a" and k = "option_id vote"])
    case overflow
    with p show ?thesis using option_overflow by simp
  next
    case absent
    with p show ?thesis using no_option by simp
  next
    case x: (present x)
    show ?thesis
    proof (cases "poll_id x = k")
      case False
      with p x(3) show ?thesis using other_poll by simp
    next
      case True
      with p x(3) show ?thesis using count_overflow commits by (cases "int64 (votes x + 1)") simp_all
    qed
  qed
qed

text \<open>
  Claim C3, as the code has it. A vote on an absent poll fails with the 404 exception. A vote
  on a poll that exists fails with the 400 exception when the option is absent, and also
  when the option exists and belongs to another poll. When the key of the poll, or the key
  of the option of a vote on an existing poll, is outside the 64-bit range, the lookup
  raises \<open>OverflowError\<close>, which leaves the handler unhandled. Whenever a vote fails, in
  one of these ways or in any other, the application state is as it was (no counter has
  changed) and nothing is broadcast.
\<close>

theorem vote_on_poll_failures:
  "(select_poll (db a) k = Inr None
      \<longrightarrow> vote_on_poll tr sched k vote a = (Inl (HTTPException 404 ''Poll not found''), a, []))
   \<and> ((\<exists>p. select_poll (db a) k = Inr (Some p)) \<and> get_option (db a) (option_id vote) = Inr None
      \<longrightarrow> vote_on_poll tr sched k vote a
            = (Inl (HTTPException 400 ''Option does not belong to this poll.''), a, []))
   \<and> ((\<exists>p. select_poll (db a) k = Inr (Some p))
        \<and> (\<exists>x. get_option (db a) (option_id vote) = Inr (Some x) \<and> poll_id x \<noteq> k)
      \<longrightarrow> vote_on_poll tr sched k vote a
            = (Inl (HTTPException 400 ''Option does not belong to this poll.''), a, []))
   \<and> (\<not> int64 k
      \<longrightarrow> select_poll (db a) k = Inl OverflowError
          \<and> vote_on_poll tr sched k vote a = (Inl (Unhandled OverflowError), a, []))
   \<and> ((\<exists>p. select_poll (db a) k = Inr (Some p)) \<and> \<not> int64 (option_id vote)
      \<longrightarrow> get_option (db a) (option_id vote) = Inl OverflowError
          \<and> vote_on_poll tr sched k vote a = (Inl (Unhandled OverflowError), a, []))
   \<and> (\<forall>e a' evs. vote_on_poll tr sched k vote a = (Inl e, a', evs) \<longrightarrow> a' = a \<and> evs = [])"
proof (intro conjI impI allI)
  assume "select_poll (db a) k = Inr None"
  then show "vote_on_poll tr sched k vote a = (Inl (HTTPException 404 ''Poll not found''), a, [])"
    by (rule vote_on_poll_no_poll)
next
  assume "(\<exists>p. select_poll (db a) k = Inr (Some p)) \<and> get_option (db a) (option_id vote) = Inr None"
  then obtain p where "select_poll (db a) k = Inr (Some p)"
    "get_option (db a) (option_id vote) = Inr None"
    by auto
  then show "vote_on_poll tr sched k vote a
            = (Inl (HTTPException 400 ''Option does not belong to this poll.''), a, [])"
    by (rule vote_on_poll_no_option)
next
  assume "(\<exists>p. select_poll (db a) k = Inr (Some p))
        \<and> (\<exists>x. get_option (db a) (option_id vote) = Inr (Some x) \<and> poll_id x \<noteq> k)"
  then obtain p x where "select_poll (db a) k = Inr (Some p)"
      "get_option (db a) (option_id vote) = Inr (Some x)" "poll_id x \<noteq> k"
    by auto
  then show "vote_on_poll tr sched k vote a
            = (Inl (HTTPException 400 ''Option does not belong to this poll.''), a, [])"
    by (rule vote_on_poll_other_poll)
next
  assume "\<not> int64 k"
  then show s: "select_poll (db a) k = Inl OverflowError" by (simp add: select_poll_def)
  show "vote_on_poll tr sched k vote a = (Inl (Unhandled OverflowError), a, [])"
    by (rule vote_on_poll_poll_overflow [OF s])
next
  assume h: "(\<exists>p. select_poll (db a) k = Inr (Some p)) \<and> \<not> int64 (option_id vote)"
  then show g: "get_option (db a) (option_id vote) = Inl OverflowError"
    by (simp add: get_option_def)
  from h obtain p where "select_poll (db a) k = Inr (Some p)" by auto
  then show "vote_on_poll tr sched k vote a = (Inl (Unhandled OverflowError), a, [])"
    using g by (rule vote_on_poll_option_overflow)
next
  fix e a' evs
  assume f: "vote_on_poll tr sched k vote a = (Inl e, a', evs)"
  show "a' = a" "evs = []"
  proof (atomize (full), cases rule: vote_on_poll_cases [where a = a and k = k and vote = vote])
    case poll_overflow
    from f show "a' = a \<and> evs = []" unfolding vote_on_poll_poll_overflow [OF poll_overflow] by simp
  next
    case no_poll
    from f show "a' = a \<and> evs = []" unfolding vote_on_poll_no_poll [OF no_poll] by simp
  next
    case (option_overflow p)
    from f show "a' = a \<and> evs = []"
      unfolding vote_on_poll_option_overflow [OF option_overflow] by simp
  next
    case (no_option p)
    from f show "a' = a \<and> evs = []" unfolding vote_on_poll_no_option [OF no_option] by simp
  next
    case (other_poll p x)
    from f show "a' = a \<and> evs = []" unfolding vote_on_poll_other_poll [OF other_poll] by simp
  next
    case (count_overflow p x)
    from f show "a' = a \<and> evs = []"
      unfolding vote_on_poll_count_overflow [OF count_overflow] by simp
  next
    case (commits p x)
    from f show "a' = a \<and> evs = []" unfolding vote_on_poll_commits [OF commits] by simp
  qed
qed

text \<open>
  Claim C7. On a well-formed store, a successful vote changes exactly one row of the option
  table: the row of the option voted for, which belongs to the poll addressed, and it
  changes it by adding one to \<open>votes\<close>. Every other option row, of this poll and of every
  other poll, is as it was, and so is the whole poll table with every poll's likes.
\<close>

theorem vote_on_poll_increments_one_counter:
  assumes "store_wf (db a)" and "vote_on_poll tr sched k vote a = (Inr r, a', evs)"
  shows "(\<exists>i x. i < length (poll_options (db a)) \<and> poll_options (db a) ! i = x
            \<and> id_option x = option_id vote \<and> poll_id x = k
            \<and> poll_options (db a') = (poll_options (db a))[i := x\<lparr>votes := votes x + 1\<rparr>]
            \<and> get_option (db a') (option_id vote) = Inr (Some (x\<lparr>votes := votes x + 1\<rparr>)))
     \<and> (\<forall>j. j \<noteq> option_id vote \<longrightarrow> get_option (db a') j = get_option (db a) j)
     \<and> polls (db a') = polls (db a)"
proof (cases rule: vote_on_poll_cases [where a = a and k = k and vote = vote])
  case poll_overflow
  from assms(2) show ?thesis unfolding vote_on_poll_poll_overflow [OF poll_overflow] by simp
next
  case no_poll
  from assms(2) show ?thesis unfolding vote_on_poll_no_poll [OF no_poll] by simp
next
  case (option_overflow p)
  from assms(2) show ?thesis unfolding vote_on_poll_option_overflow [OF option_overflow] by simp
next
  case (no_option p)
  from assms(2) show ?thesis unfolding vote_on_poll_no_option [OF no_option] by simp
next
  case (other_poll p x)
  from assms(2) show ?thesis unfolding vote_on_poll_other_poll [OF other_poll] by simp
next
  case (count_overflow p x)
  from assms(2) show ?thesis unfolding vote_on_poll_count_overflow [OF count_overflow] by simp
next
  case (commits p x)
  from assms(2) have a': "db a' = update_votes x (db a)"
    unfolding vote_on_poll_commits [OF commits] by auto
  from commits(2) have i64: "int64 (option_id vote)"
    and row: "option_row (db a) (option_id vote) = Some x"
    by (simp_all add: get_option_Some)
  have key: "id_option x = option_id vote" using row by (rule option_row_key)
  from update_votes_update [OF assms(1) row]
  obtain i where i: "i < length (poll_options (db a))" "poll_options (db a) ! i = x"
    "poll_options (update_votes x (db a)) = (poll_options (db a))[i := x\<lparr>votes := votes x + 1\<rparr>]"
    by blast
  have g: "get_option (db a') (option_id vote) = Inr (Some (x\<lparr>votes := votes x + 1\<rparr>))"
    unfolding a' by (simp add: get_option_def i64 update_votes_get [OF row])
  have o: "\<forall>j. j \<noteq> option_id vote \<longrightarrow> get_option (db a') j = get_option (db a) j"
    unfolding a' using key by (simp add: get_option_def update_votes_get_other)
  have p: "polls (db a') = polls (db a)" unfolding a' by (rule update_votes_polls)
  from i key commits(3) g o p show ?thesis unfolding a' by blast
qed

subsection \<open>like_poll\<close>

lemma like_poll_poll_overflow:
  assumes "select_poll (db a) k = Inl e"
  shows "like_poll tr sched k a = (Inl (Unhandled e), a, [])"
  by (simp add: like_poll_def get_poll_with_options_def assms)

lemma like_poll_no_poll:
  assumes "select_poll (db a) k = Inr None"
  shows "like_poll tr sched k a = (Inl (HTTPException 404 ''Poll not found''), a, [])"
  by (simp add: like_poll_def get_poll_with_options_def assms)

lemma like_poll_count_overflow:
  assumes "select_poll (db a) k = Inr (Some p)" and "\<not> int64 (likes p + 1)"
  shows "like_poll tr sched k a = (Inl (Unhandled OverflowError), a, [])"
  by (simp add: like_poll_def get_poll_with_options_def assms commit_like_def)

lemma like_poll_commits:
  assumes "select_poll (db a) k = Inr (Some p)" and "int64 (likes p + 1)"
  shows "like_poll tr sched k a
           = (Inr (serialize_poll (update_likes p (db a)) (p\<lparr>likes := likes p + 1\<rparr>)),
              a\<lparr>db := update_likes p (db a),
                manager := fst (snd (broadcast tr sched
                  (Poll_updated (serialize_poll (update_likes p (db a)) (p\<lparr>likes := likes p + 1\<rparr>)))
                  (manager a)))\<rparr>,
              snd (snd (broadcast tr sched
                  (Poll_updated (serialize_poll (update_likes p (db a)) (p\<lparr>likes := likes p + 1\<rparr>)))
                  (manager a))))"
proof -
  from assms(1) have i: "int64 k" and r: "poll_row (db a) k = Some p"
    by (simp_all add: select_poll_Some)
  have g0: "get_poll_with_options (db a) k = Inr p"
    by (rule get_poll_with_options_Some [OF i r])
  have g: "get_poll_with_options (update_likes p (db a)) k = Inr (p\<lparr>likes := likes p + 1\<rparr>)"
    by (rule get_poll_with_options_Some [OF i update_likes_select [OF r]])
  show ?thesis
    by (simp add: like_poll_def g0 assms(2) g commit_like_def publish_eq)
qed

lemma like_poll_cases:
  obtains
    (poll_overflow) "select_poll (db (a :: 'ws app)) k = Inl OverflowError"
  | (no_poll) "select_poll (db a) k = Inr None"
  | (count_overflow) p where "select_poll (db a) k = Inr (Some p)" "\<not> int64 (likes p + 1)"
  | (commits) p where "select_poll (db a) k = Inr (Some p)" "int64 (likes p + 1)"
proof (cases rule: select_poll_cases [where s = "db a" and k = k])
  case overflow
  then show ?thesis using poll_overflow by simp
next
  case absent
  then show ?thesis using no_poll by simp
next
  case (present p)
  then show ?thesis using count_overflow commits by (cases "int64 (likes p + 1)") simp_all
qed

subsection \<open>Counters only grow\<close>

lemma counters_le_nth:
  "counters_le s s' =
     (length (polls s) \<le> length (polls s')
      \<and> (\<forall>i<length (polls s). id_poll (polls s' ! i) = id_poll (polls s ! i)
             \<and> likes (polls s ! i) \<le> likes (polls s' ! i))
      \<and> length (poll_options s) \<le> length (poll_options s')
      \<and> (\<forall>i<length (poll_options s).
             id_option (poll_options s' ! i) = id_option (poll_options s ! i)
             \<and> poll_id (poll_options s' ! i) = poll_id (poll_options s ! i)
             \<and> votes (poll_options s ! i) \<le> votes (poll_options s' ! i)))"
  unfolding counters_le_def list_all2_conv_all_nth
  by (auto simp: min_def)

lemma counters_le_refl: "counters_le s s"
  by (simp add: counters_le_nth)

lemma counters_le_pollD:
  assumes "counters_le s s'" and "i < length (polls s)"
  shows "i < length (polls s')" and "id_poll (polls s' ! i) = id_poll (polls s ! i)"
    and "likes (polls s ! i) \<le> likes (polls s' ! i)"
proof -
  from assms(1) have l: "length (polls s) \<le> length (polls s')"
    and a: "\<forall>i<length (polls s). id_poll (polls s' ! i) = id_poll (polls s ! i)
             \<and> likes (polls s ! i) \<le> likes (polls s' ! i)"
    unfolding counters_le_nth by blast+
  from l assms(2) show "i < length (polls s')" by simp
  from a assms(2) show "id_poll (polls s' ! i) = id_poll (polls s ! i)" by blast
  from a assms(2) show "likes (polls s ! i) \<le> likes (polls s' ! i)" by blast
qed

lemma counters_le_optionD:
  assumes "counters_le s s'" and "i < length (poll_options s)"
  shows "i < length (poll_options s')"
    and "id_option (poll_options s' ! i) = id_option (poll_options s ! i)"
    and "poll_id (poll_options s' ! i) = poll_id (poll_options s ! i)"
    and "votes (poll_options s ! i) \<le> votes (poll_options s' ! i)"
proof -
  from assms(1) have l: "length (poll_options s) \<le> length (poll_options s')"
    and a: "\<forall>i<length (poll_options s).
             id_option (poll_options s' ! i) = id_option (poll_options s ! i)
             \<and> poll_id (poll_options s' ! i) = poll_id (poll_options s ! i)
             \<and> votes (poll_options s ! i) \<le> votes (poll_options s' ! i)"
    unfolding counters_le_nth by blast+
  from l assms(2) show "i < length (poll_options s')" by simp
  from a assms(2) show "id_option (poll_options s' ! i) = id_option (poll_options s ! i)" by blast
  from a assms(2) show "poll_id (poll_options s' ! i) = poll_id (poll_options s ! i)" by blast
  from a assms(2) show "votes (poll_options s ! i) \<le> votes (poll_options s' ! i)" by blast
qed

lemma counters_le_trans:
  assumes "counters_le s t" and "counters_le t u"
  shows "counters_le s u"
proof -
  have p: "id_poll (polls u ! i) = id_poll (polls s ! i) \<and> likes (polls s ! i) \<le> likes (polls u ! i)"
    if i: "i < length (polls s)" for i
  proof -
    note st = counters_le_pollD [OF assms(1) i]
    note tu = counters_le_pollD [OF assms(2) st(1)]
    from st tu show ?thesis by simp
  qed
  have o: "id_option (poll_options u ! i) = id_option (poll_options s ! i)
             \<and> poll_id (poll_options u ! i) = poll_id (poll_options s ! i)
             \<and> votes (poll_options s ! i) \<le> votes (poll_options u ! i)"
    if i: "i < length (poll_options s)" for i
  proof -
    note st = counters_le_optionD [OF assms(1) i]
    note tu = counters_le_optionD [OF assms(2) st(1)]
    from st tu show ?thesis by simp
  qed
  from assms have "length (polls s) \<le> length (polls u)"
    and "length (poll_options s) \<le> length (poll_options u)"
    unfolding counters_le_nth by simp_all
  with p o show ?thesis unfolding counters_le_nth by blast
qed

lemma insert_poll_counters: "counters_le s (snd (insert_poll now q d texts s))"
  by (simp add: counters_le_nth insert_poll_polls insert_poll_options nth_append)

lemma update_votes_counters:
  assumes "store_wf s" and "option_row s j = Some x"
  shows "counters_le s (update_votes x s)"
proof -
  from update_votes_update [OF assms]
  obtain i where i: "i < length (poll_options s)" "poll_options s ! i = x"
    "poll_options (update_votes x s) = (poll_options s)[i := x\<lparr>votes := votes x + 1\<rparr>]"
    by blast
  show ?thesis
    unfolding counters_le_nth i(3) update_votes_polls
    using i(1,2) by (auto simp: nth_list_update)
qed

lemma update_likes_counters:
  assumes "store_wf s" and "poll_row s k = Some p"
  shows "counters_le s (update_likes p s)"
proof -
  from update_likes_update [OF assms]
  obtain i where i: "i < length (polls s)" "polls s ! i = p"
    "polls (update_likes p s) = (polls s)[i := p\<lparr>likes := likes p + 1\<rparr>]"
    by blast
  show ?thesis
    unfolding counters_le_nth i(3) update_likes_options
    using i(1,2) by (auto simp: nth_list_update)
qed

subsection \<open>Histories\<close>

lemma create_poll_db:
  "db (fst (snd (create_poll tr sched now payload a))) = db a
   \<or> db (fst (snd (create_poll tr sched now payload a)))
       = snd (insert_poll now (strip (question_create payload)) (description_create payload)
           (map strip (filter (\<lambda>option. strip option \<noteq> []) (options_create payload))) (db a))"
proof (cases "length (map strip (filter (\<lambda>option. strip option \<noteq> []) (options_create payload))) < 2")
  case True
  then show ?thesis by (simp add: create_poll_rejects)
next
  case False
  show ?thesis
  proof (cases rule: commit_poll_cases [where now = now and q = "strip (question_create payload)"
        and d = "description_create payload"
        and texts = "map strip (filter (\<lambda>option. strip option \<noteq> []) (options_create payload))"
        and s = "db a"])
    case bad_text
    show ?thesis by (simp add: create_poll_raises [OF False bad_text])
  next
    case no_room
    show ?thesis by (simp add: create_poll_raises [OF False no_room])
  next
    case inserts
    show ?thesis by (simp add: create_poll_accepts [OF False inserts(1,2)] publish_eq)
  qed
qed

lemma handle_step:
  assumes "store_wf (db a)"
  shows "store_wf (db (handle req a)) \<and> counters_le (db a) (db (handle req a))"
proof (cases req)
  case (Create_poll tr sched now payload)
  from create_poll_db [of tr sched now payload a] show ?thesis
  proof
    assume "db (fst (snd (create_poll tr sched now payload a))) = db a"
    with assms Create_poll show ?thesis by (simp add: counters_le_refl)
  next
    assume "db (fst (snd (create_poll tr sched now payload a)))
       = snd (insert_poll now (strip (question_create payload)) (description_create payload)
           (map strip (filter (\<lambda>option. strip option \<noteq> []) (options_create payload))) (db a))"
    with assms Create_poll show ?thesis by (simp add: insert_poll_wf insert_poll_counters)
  qed
next
  case (Vote_on_poll tr sched k vote)
  show ?thesis
  proof (cases rule: vote_on_poll_cases [where a = a and k = k and vote = vote])
    case poll_overflow
    with assms Vote_on_poll show ?thesis
      by (simp add: vote_on_poll_poll_overflow counters_le_refl)
  next
    case no_poll
    with assms Vote_on_poll show ?thesis
      by (simp add: vote_on_poll_no_poll counters_le_refl)
  next
    case (option_overflow p)
    with assms Vote_on_poll show ?thesis
      by (simp add: vote_on_poll_option_overflow [OF option_overflow] counters_le_refl)
  next
    case (no_option p)
    with assms Vote_on_poll show ?thesis
      by (simp add: vote_on_poll_no_option [OF no_option] counters_le_refl)
  next
    case (other_poll p x)
    with assms Vote_on_poll show ?thesis
      by (simp add: vote_on_poll_other_poll [OF other_poll] counters_le_refl)
  next
    case (count_overflow p x)
    with assms Vote_on_poll show ?thesis
      by (simp add: vote_on_poll_count_overflow [OF count_overflow] counters_le_refl)
  next
    case (commits p x)
    from commits(2) have row: "option_row (db a) (option_id vote) = Some x"
      by (simp add: get_option_Some)
    from assms Vote_on_poll show ?thesis
      by (simp add: vote_on_poll_commits [OF commits] update_votes_wf
          update_votes_counters [OF assms row])
  qed
next
  case (Like_poll tr sched k)
  show ?thesis
  proof (cases rule: like_poll_cases [where a = a and k = k])
    case poll_overflow
    with assms Like_poll show ?thesis by (simp add: like_poll_poll_overflow counters_le_refl)
  next
    case no_poll
    with assms Like_poll show ?thesis by (simp add: like_poll_no_poll counters_le_refl)
  next
    case (count_overflow p)
    with assms Like_poll show ?thesis
      by (simp add: like_poll_count_overflow [OF count_overflow] counters_le_refl)
  next
    case (commits p)
    from commits(1) have row: "poll_row (db a) k = Some p" by (simp add: select_poll_Some)
    from assms Like_poll show ?thesis
      by (simp add: like_poll_commits [OF commits] update_likes_wf
          update_likes_counters [OF assms row])
  qed
qed

lemma serve_invariant:
  "store_wf (db a) \<Longrightarrow> store_wf (db (serve reqs a)) \<and> counters_le (db a) (db (serve reqs a))"
proof (induction reqs arbitrary: a)
  case Nil
  then show ?case by (simp add: serve_def counters_le_refl)
next
  case (Cons req reqs)
  from handle_step [OF Cons.prems, of req]
  have wf: "store_wf (db (handle req a))" and le: "counters_le (db a) (db (handle req a))"
    by simp_all
  from Cons.IH [OF wf]
  have wf': "store_wf (db (serve reqs (handle req a)))"
    and le': "counters_le (db (handle req a)) (db (serve reqs (handle req a)))"
    by simp_all
  have s: "serve (req # reqs) a = serve reqs (handle req a)" by (simp add: serve_def)
  from wf' counters_le_trans [OF le le'] show ?case unfolding s by simp
qed

lemma init_app_wf: "store_wf (db init_app)"
  by (simp add: store_wf_def init_app_def init_db_def)

text \<open>
  Claim C8. On a well-formed store, a successful like changes exactly one row of the poll
  table, the row of the poll addressed, by adding one to \<open>likes\<close>; the response shows the
  new count; the option table, with every option's votes, is as it was. And over any
  sequence of create, vote and like requests every row stays in its place with its keys,
  no poll's likes and no option's votes ever get smaller, and the store stays well-formed.
\<close>

theorem like_poll_increments_and_counters_grow:
  "(store_wf (db a) \<and> like_poll tr sched k a = (Inr r, a', evs)
      \<longrightarrow> (\<exists>i p. i < length (polls (db a)) \<and> polls (db a) ! i = p \<and> id_poll p = k
              \<and> polls (db a') = (polls (db a))[i := p\<lparr>likes := likes p + 1\<rparr>]
              \<and> likes_read r = likes p + 1)
          \<and> poll_options (db a') = poll_options (db a))
   \<and> (store_wf (db a)
      \<longrightarrow> counters_le (db a) (db (serve reqs a)) \<and> store_wf (db (serve reqs a)))"
proof (intro conjI impI)
  assume h: "store_wf (db a) \<and> like_poll tr sched k a = (Inr r, a', evs)"
  then have wf: "store_wf (db a)" and l: "like_poll tr sched k a = (Inr r, a', evs)" by simp_all
  obtain p where p: "select_poll (db a) k = Inr (Some p)" and c: "int64 (likes p + 1)"
  proof (cases rule: like_poll_cases [where a = a and k = k])
    case poll_overflow
    with l show ?thesis by (simp add: like_poll_poll_overflow)
  next
    case no_poll
    with l show ?thesis by (simp add: like_poll_no_poll)
  next
    case (count_overflow p)
    from l show ?thesis unfolding like_poll_count_overflow [OF count_overflow] by simp
  next
    case (commits p)
    with that show ?thesis .
  qed
  from p have row: "poll_row (db a) k = Some p" by (simp add: select_poll_Some)
  from l have a': "db a' = update_likes p (db a)"
    and r: "r = serialize_poll (update_likes p (db a)) (p\<lparr>likes := likes p + 1\<rparr>)"
    unfolding like_poll_commits [OF p c] by auto
  from update_likes_update [OF wf row]
  obtain i where i: "i < length (polls (db a))" "polls (db a) ! i = p"
    "polls (update_likes p (db a)) = (polls (db a))[i := p\<lparr>likes := likes p + 1\<rparr>]"
    by blast
  have k: "id_poll p = k" using row by (rule poll_row_key)
  have lr: "likes_read r = likes p + 1" by (simp add: r serialize_poll_def)
  from i k lr
  show "\<exists>i p. i < length (polls (db a)) \<and> polls (db a) ! i = p \<and> id_poll p = k
              \<and> polls (db a') = (polls (db a))[i := p\<lparr>likes := likes p + 1\<rparr>]
              \<and> likes_read r = likes p + 1"
    unfolding a' by blast
  show "poll_options (db a') = poll_options (db a)" unfolding a' by (rule update_likes_options)
next
  assume wf: "store_wf (db a)"
  from serve_invariant [OF wf, of reqs]
  show "counters_le (db a) (db (serve reqs a))" and "store_wf (db (serve reqs a))" by simp_all
qed

lemmas run_defs = vote_on_poll_def like_poll_def commit_vote_def commit_like_def
  update_votes_def update_likes_def example_app_def example_db_def sched_head_def run_env_def
  send_json_def set_add_def set_discard_def serve_def

theorem vote_on_poll_failures_witness:
  "select_poll (db example_app) 9 = Inr None
   \<and> vote_on_poll (\<lambda>w. None) [] 9 \<lparr>option_id = 1\<rparr> example_app
       = (Inl (HTTPException 404 ''Poll not found''), example_app, [])
   \<and> ((\<exists>p. select_poll (db example_app) 1 = Inr (Some p))
        \<and> get_option (db example_app) (option_id \<lparr>option_id = 99\<rparr>) = Inr None)
   \<and> vote_on_poll (\<lambda>w. None) [] 1 \<lparr>option_id = 99\<rparr> example_app
       = (Inl (HTTPException 400 ''Option does not belong to this poll.''), example_app, [])
   \<and> ((\<exists>p. select_poll (db example_app) 1 = Inr (Some p))
        \<and> (\<exists>x. get_option (db example_app) (option_id \<lparr>option_id = 3\<rparr>) = Inr (Some x)
               \<and> poll_id x \<noteq> 1))
   \<and> vote_on_poll (\<lambda>w. None) [] 1 \<lparr>option_id = 3\<rparr> example_app
       = (Inl (HTTPException 400 ''Option does not belong to this poll.''), example_app, [])
   \<and> \<not> int64 9223372036854775808
   \<and> (select_poll (db example_app) 9223372036854775808 = Inl OverflowError
        \<and> vote_on_poll (\<lambda>w. None) [] 9223372036854775808 \<lparr>option_id = 1\<rparr> example_app
           = (Inl (Unhandled OverflowError), example_app, []))
   \<and> ((\<exists>p. select_poll (db example_app) 1 = Inr (Some p))
        \<and> \<not> int64 (option_id \<lparr>option_id = - 9223372036854775809\<rparr>))
   \<and> (get_option (db example_app) (option_id \<lparr>option_id = - 9223372036854775809\<rparr>)
          = Inl OverflowError
        \<and> vote_on_poll (\<lambda>w. None) [] 1 \<lparr>option_id = - 9223372036854775809\<rparr> example_app
           = (Inl (Unhandled OverflowError), example_app, []))"
proof -
  have h1: "select_poll (db example_app) 9 = Inr None"
    by (simp add: select_poll_def poll_row_def int64_def example_app_def example_db_def)
  have h2: "(\<exists>p. select_poll (db example_app) 1 = Inr (Some p))
        \<and> get_option (db example_app) (option_id \<lparr>option_id = 99\<rparr>) = Inr None"
    by (simp add: select_poll_def poll_row_def get_option_def option_row_def int64_def
        example_app_def example_db_def)
  have h3: "(\<exists>p. select_poll (db example_app) 1 = Inr (Some p))
        \<and> (\<exists>x. get_option (db example_app) (option_id \<lparr>option_id = 3\<rparr>) = Inr (Some x)
               \<and> poll_id x \<noteq> 1)"
    by (simp add: select_poll_def poll_row_def get_option_def option_row_def int64_def
        example_app_def example_db_def)
  have h4: "\<not> int64 9223372036854775808" by (simp add: int64_def)
  have h5: "(\<exists>p. select_poll (db example_app) 1 = Inr (Some p))
        \<and> \<not> int64 (option_id \<lparr>option_id = - 9223372036854775809\<rparr>)"
    by (simp add: select_poll_def poll_row_def int64_def example_app_def example_db_def)
  note t1 = vote_on_poll_failures [THEN conjunct1, THEN mp, OF h1]
  note t2 = vote_on_poll_failures [THEN conjunct2, THEN conjunct1, THEN mp, OF h2]
  note t3 = vote_on_poll_failures [THEN conjunct2, THEN conjunct2, THEN conjunct1, THEN mp, OF h3]
  note t4 = vote_on_poll_failures
    [THEN conjunct2, THEN conjunct2, THEN conjunct2, THEN conjunct1, THEN mp, OF h4]
  note t5 = vote_on_poll_failures
    [THEN conjunct2, THEN conjunct2, THEN conjunct2, THEN conjunct2, THEN conjunct1, THEN mp,
     OF h5]
  show ?thesis
    by (rule conjI [OF h1 conjI [OF t1 conjI [OF h2 conjI [OF t2 conjI [OF h3 conjI [OF t3
          conjI [OF h4 conjI [OF t4 conjI [OF h5 t5]]]]]]]]])
qed

text \<open>
  Against C3 as stated: a vote on an existing poll for an option that does not exist fails
  with the 400 exception, not with a 404; and a vote on a poll whose key is beyond the
  64-bit range, a poll that does not exist, fails with an unhandled \<open>OverflowError\<close>,
  not with a 404.
\<close>

theorem vote_missing_option_counterexample:
  "vote_on_poll (\<lambda>w. None) [] 1 \<lparr>option_id = 99\<rparr> example_app
     = (Inl (HTTPException 400 ''Option does not belong to this poll.''), example_app, [])
   \<and> option_row (db example_app) 99 = None
   \<and> poll_row (db example_app) 1
       = Some \<lparr>id_poll = 1, question = [84, 101, 97, 63], description = None, created_at = 5,
               likes = 0\<rparr>
   \<and> vote_on_poll (\<lambda>w. None) [] 9223372036854775808 \<lparr>option_id = 1\<rparr> example_app
     = (Inl (Unhandled OverflowError), example_app, [])
   \<and> poll_row (db example_app) 9223372036854775808 = None"
  by (simp add: run_defs get_poll_with_options_def select_poll_def poll_row_def get_option_def
      option_row_def int64_def)

theorem vote_on_poll_increments_one_counter_witness:
  "store_wf (db example_app)
   \<and> vote_on_poll (\<lambda>w. None) [] 1 \<lparr>option_id = 2\<rparr> example_app
       = (Inr \<lparr>id_read = 1, question_read = [84, 101, 97, 63], description_read = None,
               likes_read = 0, created_at_read = 5,
               options_read = [\<lparr>id_option_read = 1, text_option_read = [84], votes_read = 0\<rparr>,
                               \<lparr>id_option_read = 2, text_option_read = [67], votes_read = 4\<rparr>]\<rparr>,
          fst (snd (vote_on_poll (\<lambda>w. None) [] 1 \<lparr>option_id = 2\<rparr> example_app)),
          snd (snd (vote_on_poll (\<lambda>w. None) [] 1 \<lparr>option_id = 2\<rparr> example_app)))
   \<and> polls (db (fst (snd (vote_on_poll (\<lambda>w. None) [] 1 \<lparr>option_id = 2\<rparr> example_app))))
       = polls (db example_app)
   \<and> poll_options (db (fst (snd (vote_on_poll (\<lambda>w. None) [] 1 \<lparr>option_id = 2\<rparr> example_app))))
       = [\<lparr>id_option = 1, text_option = [84], votes = 0, poll_id = 1\<rparr>,
          \<lparr>id_option = 2, text_option = [67], votes = 4, poll_id = 1\<rparr>,
          \<lparr>id_option = 3, text_option = [89], votes = 1, poll_id = 2\<rparr>,
          \<lparr>id_option = 4, text_option = [78], votes = 0, poll_id = 2\<rparr>]"
proof -
  have wf: "store_wf (db example_app)"
    by (simp add: store_wf_def example_app_def example_db_def)
  have f: "fst (vote_on_poll (\<lambda>w. None) [] 1 \<lparr>option_id = 2\<rparr> example_app)
       = Inr \<lparr>id_read = 1, question_read = [84, 101, 97, 63], description_read = None,
               likes_read = 0, created_at_read = 5,
               options_read = [\<lparr>id_option_read = 1, text_option_read = [84], votes_read = 0\<rparr>,
                               \<lparr>id_option_read = 2, text_option_read = [67], votes_read = 4\<rparr>]\<rparr>"
    by (simp add: run_defs eval_defs)
  have h: "vote_on_poll (\<lambda>w. None) [] 1 \<lparr>option_id = 2\<rparr> example_app
       = (Inr \<lparr>id_read = 1, question_read = [84, 101, 97, 63], description_read = None,
               likes_read = 0, created_at_read = 5,
               options_read = [\<lparr>id_option_read = 1, text_option_read = [84], votes_read = 0\<rparr>,
                               \<lparr>id_option_read = 2, text_option_read = [67], votes_read = 4\<rparr>]\<rparr>,
          fst (snd (vote_on_poll (\<lambda>w. None) [] 1 \<lparr>option_id = 2\<rparr> example_app)),
          snd (snd (vote_on_poll (\<lambda>w. None) [] 1 \<lparr>option_id = 2\<rparr> example_app)))"
    by (simp only: f [symmetric] prod.collapse)
  note t = vote_on_poll_increments_one_counter [OF wf h]
  have p: "polls (db (fst (snd (vote_on_poll (\<lambda>w. None) [] 1 \<lparr>option_id = 2\<rparr> example_app))))
       = polls (db example_app)"
    using t by (rule conjunct2 [THEN conjunct2])
  have o: "poll_options (db (fst (snd (vote_on_poll (\<lambda>w. None) [] 1 \<lparr>option_id = 2\<rparr> example_app))))
       = [\<lparr>id_option = 1, text_option = [84], votes = 0, poll_id = 1\<rparr>,
          \<lparr>id_option = 2, text_option = [67], votes = 4, poll_id = 1\<rparr>,
          \<lparr>id_option = 3, text_option = [89], votes = 1, poll_id = 2\<rparr>,
          \<lparr>id_option = 4, text_option = [78], votes = 0, poll_id = 2\<rparr>]"
    by (simp add: run_defs eval_defs)
  show ?thesis by (rule conjI [OF wf conjI [OF h conjI [OF p o]]])
qed

theorem like_poll_increments_and_counters_grow_witness:
  "(store_wf (db example_app)
     \<and> like_poll (\<lambda>w. if w = 1 then Some OtherException else None) [] 2 example_app
        = (Inr \<lparr>id_read = 2, question_read = [67, 97, 116, 63], description_read = None,
                likes_read = 5, created_at_read = 7,
                options_read = [\<lparr>id_option_read = 3, text_option_read = [89], votes_read = 1\<rparr>,
                                \<lparr>id_option_read = 4, text_option_read = [78], votes_read = 0\<rparr>]\<rparr>,
           fst (snd (like_poll (\<lambda>w. if w = 1 then Some OtherException else None) [] 2 example_app)),
           snd (snd (like_poll (\<lambda>w. if w = 1 then Some OtherException else None) [] 2 example_app))))
   \<and> poll_options (db (fst (snd (like_poll (\<lambda>w. if w = 1 then Some OtherException else None) []
        2 example_app)))) = poll_options (db example_app)
   \<and> map likes (polls (db (fst (snd (like_poll (\<lambda>w. if w = 1 then Some OtherException else None) []
        2 example_app))))) = [0, 5]
   \<and> counters_le (db example_app)
        (db (serve [Vote_on_poll (\<lambda>w. None) [] 1 \<lparr>option_id = 2\<rparr>, Like_poll (\<lambda>w. None) [] 2,
                    Create_poll (\<lambda>w. None) [] 9
                      \<lparr>question_create = [81], description_create = None,
                       options_create = [[65], [66]]\<rparr>] example_app))
   \<and> map votes (poll_options
        (db (serve [Vote_on_poll (\<lambda>w. None) [] 1 \<lparr>option_id = 2\<rparr>, Like_poll (\<lambda>w. None) [] 2,
                    Create_poll (\<lambda>w. None) [] 9
                      \<lparr>question_create = [81], description_create = None,
                       options_create = [[65], [66]]\<rparr>] example_app))) = [0, 4, 1, 0, 0, 0]"
proof -
  have wf: "store_wf (db example_app)"
    by (simp add: store_wf_def example_app_def example_db_def)
  have f: "fst (like_poll (\<lambda>w. if w = 1 then Some OtherException else None) [] 2 example_app)
        = Inr \<lparr>id_read = 2, question_read = [67, 97, 116, 63], description_read = None,
                likes_read = 5, created_at_read = 7,
                options_read = [\<lparr>id_option_read = 3, text_option_read = [89], votes_read = 1\<rparr>,
                                \<lparr>id_option_read = 4, text_option_read = [78], votes_read = 0\<rparr>]\<rparr>"
    by (simp add: run_defs eval_defs)
  have h: "like_poll (\<lambda>w. if w = 1 then Some OtherException else None) [] 2 example_app
        = (Inr \<lparr>id_read = 2, question_read = [67, 97, 116, 63], description_read = None,
                likes_read = 5, created_at_read = 7,
                options_read = [\<lparr>id_option_read = 3, text_option_read = [89], votes_read = 1\<rparr>,
                                \<lparr>id_option_read = 4, text_option_read = [78], votes_read = 0\<rparr>]\<rparr>,
           fst (snd (like_poll (\<lambda>w. if w = 1 then Some OtherException else None) [] 2 example_app)),
           snd (snd (like_poll (\<lambda>w. if w = 1 then Some OtherException else None) [] 2 example_app)))"
    by (simp only: f [symmetric] prod.collapse)
  note t1 = like_poll_increments_and_counters_grow [THEN conjunct1, THEN mp, OF conjI [OF wf h]]
  have o: "poll_options (db (fst (snd (like_poll (\<lambda>w. if w = 1 then Some OtherException else None) []
        2 example_app)))) = poll_options (db example_app)"
    using t1 by (rule conjunct2)
  have l: "map likes (polls (db (fst (snd (like_poll (\<lambda>w. if w = 1 then Some OtherException else None) []
        2 example_app))))) = [0, 5]"
    by (simp add: run_defs eval_defs)
  note t2 = like_poll_increments_and_counters_grow [THEN conjunct2, THEN mp, OF wf]
  have c: "counters_le (db example_app)
        (db (serve [Vote_on_poll (\<lambda>w. None) [] 1 \<lparr>option_id = 2\<rparr>, Like_poll (\<lambda>w. None) [] 2,
                    Create_poll (\<lambda>w. None) [] 9
                      \<lparr>question_create = [81], description_create = None,
                       options_create = [[65], [66]]\<rparr>] example_app))"
    by (rule t2 [THEN conjunct1])
  have v: "map votes (poll_options
        (db (serve [Vote_on_poll (\<lambda>w. None) [] 1 \<lparr>option_id = 2\<rparr>, Like_poll (\<lambda>w. None) [] 2,
                    Create_poll (\<lambda>w. None) [] 9
                      \<lparr>question_create = [81], description_create = None,
                       options_create = [[65], [66]]\<rparr>] example_app))) = [0, 4, 1, 0, 0, 0]"
    by (simp add: run_defs eval_defs)
  show ?thesis by (rule conjI [OF conjI [OF wf h] conjI [OF o conjI [OF l conjI [OF c v]]]])
qed

subsection \<open>websocket_endpoint\<close>








end
